theory Spec2Isabelle
  imports Main
begin

section \<open>mok: a development server for JSON files\<close>

text \<open>
  The program is \<^verbatim>\<open>mok.go\<close>. Its functions are embedded one by one, under their own
  names, for a Unix system (the path separator is \<^verbatim>\<open>/\<close>). What the program reaches
  through the standard library (the file system, the network, the random names of
  temporary files, the text encoders) is explicit: the mutable part is a record
  \<open>world\<close> that every effectful function takes and returns, the pure library
  functions whose code is not part of the program are the fields of a record \<open>lib\<close>.
  Strings are byte lists, as in Go.
\<close>

subsection \<open>Strings and paths\<close>

definition HasPrefix :: "string \<Rightarrow> string \<Rightarrow> bool" where
  \<comment> \<open>\<^verbatim>\<open>strings.HasPrefix(s, prefix)\<close>\<close>
  "HasPrefix s p = (length p \<le> length s \<and> take (length p) s = p)"

definition isPathSeparator :: "char \<Rightarrow> bool" where
  "isPathSeparator c = (c = CHR ''/'')"

definition lastElement :: "string \<Rightarrow> string" where
  \<comment> \<open>the bytes after the last separator (the whole string when there is none)\<close>
  "lastElement p = rev (takeWhile (\<lambda>c. \<not> isPathSeparator c) (rev p))"

definition stripTrailing :: "string \<Rightarrow> string" where
  "stripTrailing p = rev (dropWhile isPathSeparator (rev p))"

definition Base :: "string \<Rightarrow> string" where
  \<comment> \<open>\<^verbatim>\<open>filepath.Base\<close>: the empty path gives \<^verbatim>\<open>.\<close>, trailing separators are
      removed first, a path of separators only gives one separator\<close>
  "Base p =
     (if p = [] then ''.''
      else let q = lastElement (stripTrailing p) in if q = [] then ''/'' else q)"

definition Split :: "string \<Rightarrow> string \<times> string" where
  \<comment> \<open>\<^verbatim>\<open>filepath.Split\<close>: directory (with its final separator) and file\<close>
  "Split p = (rev (dropWhile (\<lambda>c. \<not> isPathSeparator c) (rev p)), lastElement p)"

function Uitoa :: "nat \<Rightarrow> string" where
  "Uitoa n = (if n < 10 then [''0123456789'' ! n]
              else Uitoa (n div 10) @ [''0123456789'' ! (n mod 10)])"
  by pat_completeness auto
termination
  by (relation "measure id") auto

declare Uitoa.simps [simp del]

definition Itoa :: "int \<Rightarrow> string" where
  \<comment> \<open>\<^verbatim>\<open>strconv.Itoa\<close>, the \<^verbatim>\<open>%d\<close> verb\<close>
  "Itoa i = (if i < 0 then CHR ''-'' # Uitoa (nat (- i)) else Uitoa (nat i))"

subsection \<open>The world outside the program\<close>

datatype entry = Dir | File string

record http_response =
  StatusCode :: int
  Status :: string
  ContentType :: string
  Body :: string
  BodyError :: "string option"

datatype log_event =
    LogDownloading string
  | LogCreatingTemp string
  | LogFailed string
  | LogDownloaded string string

record world =
  fsys :: "string \<rightharpoonup> entry"
  tmpDir :: string
  randoms :: "nat list"
  network :: "string \<Rightarrow> string + http_response"
  requests :: "string list"
  verboseFlag :: bool
  logLines :: "log_event list"
  bindError :: "string option"

text \<open>
  \<open>fsys\<close> maps a path to what \<^verbatim>\<open>os.Stat\<close> finds there (\<open>None\<close>: the call fails),
  \<open>randoms\<close> are the numbers \<^verbatim>\<open>os.CreateTemp\<close> will draw, \<open>network\<close> is the answer
  \<^verbatim>\<open>http.Get\<close> obtains for a URL (\<open>Inl\<close>: the request failed; \<open>Body\<close> is what can be
  read of the body, \<open>BodyError\<close> the error that ends the reading, if any), \<open>requests\<close>
  records every GET that was sent, \<open>logLines\<close> what \<^verbatim>\<open>logInfo\<close> printed,
  \<open>bindError\<close> the error of \<^verbatim>\<open>http.ListenAndServe\<close> when the port cannot be bound.
\<close>

record lib =
  urlHost :: "string \<Rightarrow> string + string"
  jsonQuote :: "string \<Rightarrow> string"
  jsonReencode :: "string \<Rightarrow> string"
  jsonSyntaxError :: "string \<Rightarrow> string"
  jsonObjectError :: "string \<Rightarrow> string option"
  escapeHref :: "string \<Rightarrow> string"
  escapeText :: "string \<Rightarrow> string"

text \<open>
  \<open>urlHost u\<close> is \<^verbatim>\<open>url.Parse(u)\<close>: the error text or the \<^verbatim>\<open>Host\<close> field.
  \<open>jsonQuote s\<close> is the JSON string literal the encoder of \<^verbatim>\<open>encoding/json\<close> writes for
  \<open>s\<close>, \<open>jsonReencode b\<close> the bytes it writes for the map decoded from the document \<open>b\<close>,
  \<open>jsonSyntaxError b\<close> the text of the decoder's error on a malformed \<open>b\<close>,
  \<open>jsonObjectError b\<close> the error of storing the object \<open>b\<close> in a map, if any (a number
  out of range). \<open>escapeHref\<close> and
  \<open>escapeText\<close> are the escapers \<^verbatim>\<open>html/template\<close> applies inside an \<^verbatim>\<open>href\<close> attribute
  and inside element text.
\<close>

datatype error =
    ParseURL string
  | CreateTempFile string
  | Download string
  | UnexpectedContentType string string
  | DownloadFailed string
  | Save string
  | DownloadingRemote error
  | CheckingFile string
  | IsDirectory string
  | NoFileSpecified
  | CannotReadDirectInput string
  | HttpListen string

subsection \<open>Downloading a remote document\<close>

definition logInfo :: "log_event \<Rightarrow> world \<Rightarrow> world" where
  "logInfo ev w = (if verboseFlag w then w\<lparr>logLines := logLines w @ [ev]\<rparr> else w)"

definition prefixAndSuffix :: "string \<Rightarrow> string \<times> string" where
  \<comment> \<open>the pattern is cut at its last \<^verbatim>\<open>*\<close>\<close>
  "prefixAndSuffix pattern =
     (if CHR ''*'' \<in> set pattern
      then (rev (tl (dropWhile (\<lambda>c. c \<noteq> CHR ''*'') (rev pattern))),
            rev (takeWhile (\<lambda>c. c \<noteq> CHR ''*'') (rev pattern)))
      else (pattern, []))"

definition joinPath :: "string \<Rightarrow> string \<Rightarrow> string" where
  "joinPath dir name =
     (if dir \<noteq> [] \<and> isPathSeparator (last dir) then dir @ name else dir @ ''/'' @ name)"

definition tempName :: "world \<Rightarrow> string \<Rightarrow> nat \<Rightarrow> string" where
  "tempName w pattern n =
     (case prefixAndSuffix pattern of
        (prefix, suffix) \<Rightarrow> joinPath (tmpDir w) (prefix @ Uitoa n @ suffix))"

definition CreateTemp :: "string \<Rightarrow> world \<Rightarrow> (string + string) \<times> world" where
  \<comment> \<open>\<^verbatim>\<open>os.CreateTemp("", pattern)\<close>: a pattern with a separator is refused; otherwise
      random names are tried until one does not exist, and the empty file is created
      (the call fails when the numbers run out; the library gives up after 10000
      names that exist)\<close>
  "CreateTemp pattern w =
     (if \<exists>c \<in> set pattern. isPathSeparator c
      then (Inl ''pattern contains path separator'', w)
      else case dropWhile (\<lambda>n. fsys w (tempName w pattern n) \<noteq> None) (randoms w) of
             [] \<Rightarrow> (Inl ''file exists'', w\<lparr>randoms := []\<rparr>)
           | n # ns \<Rightarrow>
               (Inr (tempName w pattern n),
                w\<lparr>randoms := ns,
                  fsys := (fsys w)(tempName w pattern n \<mapsto> File [])\<rparr>))"

definition httpGet :: "string \<Rightarrow> world \<Rightarrow> (string + http_response) \<times> world" where
  "httpGet u w = (network w u, w\<lparr>requests := requests w @ [u]\<rparr>)"

definition ioCopy :: "string \<Rightarrow> http_response \<Rightarrow> world \<Rightarrow> string option \<times> world" where
  \<comment> \<open>\<^verbatim>\<open>io.Copy(tempFile, resp.Body)\<close>: what was read is in the file, also on error\<close>
  "ioCopy name resp w = (BodyError resp, w\<lparr>fsys := (fsys w)(name \<mapsto> File (Body resp))\<rparr>)"

definition downloadJSON :: "lib \<Rightarrow> string \<Rightarrow> world \<Rightarrow> (error + string) \<times> world" where
  "downloadJSON L u w0 =
     (let w1 = logInfo (LogDownloading u) w0 in
      case urlHost L u of
        Inl e \<Rightarrow> (Inl (ParseURL e), w1)
      | Inr host \<Rightarrow>
         (case CreateTemp (''mok-'' @ host @ ''.*.json'') w1 of
            (Inl e, w2) \<Rightarrow> (Inl (CreateTempFile e), w2)
          | (Inr name, w2) \<Rightarrow>
             (let w3 = logInfo (LogCreatingTemp name) w2 in
              case httpGet u w3 of
                (Inl e, w4) \<Rightarrow> (Inl (Download e), w4)
              | (Inr resp, w4) \<Rightarrow>
                  if ContentType resp \<noteq> ''application/json''
                  then (Inl (UnexpectedContentType u (ContentType resp)), w4)
                  else if StatusCode resp \<noteq> 200
                  then (Inl (DownloadFailed (Status resp)), logInfo (LogFailed u) w4)
                  else (case ioCopy name resp w4 of
                          (Some e, w5) \<Rightarrow> (Inl (Save e), w5)
                        | (None, w5) \<Rightarrow> (Inr name, logInfo (LogDownloaded u name) w5)))))"

subsection \<open>Resolving the arguments\<close>

record MokFile =
  FilePath :: string
  URLPath :: string

definition isRemote :: "string \<Rightarrow> bool" where
  "isRemote arg = (HasPrefix arg ''http://'' \<or> HasPrefix arg ''https://'')"

definition resolveFile :: "lib \<Rightarrow> string \<Rightarrow> world \<Rightarrow> (error + string) \<times> world" where
  "resolveFile L arg w =
     (if isRemote arg
      then (case downloadJSON L arg w of
              (Inl err, w') \<Rightarrow> (Inl (DownloadingRemote err), w')
            | (Inr file, w') \<Rightarrow> (Inr file, w'))
      else (case fsys w arg of
              None \<Rightarrow> (Inl (CheckingFile arg), w)
            | Some Dir \<Rightarrow> (Inl (IsDirectory arg), w)
            | Some (File _) \<Rightarrow> (Inr arg, w)))"

fun processFileArgs_loop ::
  "lib \<Rightarrow> string list \<Rightarrow> string set \<Rightarrow> MokFile list \<Rightarrow> world \<Rightarrow> (error + MokFile list) \<times> world"
where
  "processFileArgs_loop L [] seen files w = (Inr files, w)"
| "processFileArgs_loop L (arg # args) seen files w =
     (case resolveFile L arg w of
        (Inl err, w') \<Rightarrow> (Inl err, w')
      | (Inr filePath, w') \<Rightarrow>
          if filePath \<in> seen then processFileArgs_loop L args seen files w'
          else processFileArgs_loop L args (insert filePath seen)
                 (files @ [\<lparr>FilePath = filePath, URLPath = ''/'' @ Base filePath\<rparr>]) w')"

definition processFileArgs :: "lib \<Rightarrow> string list \<Rightarrow> world \<Rightarrow> (error + MokFile list) \<times> world" where
  \<comment> \<open>\<open>Inl err\<close>: \<^verbatim>\<open>errAndExit(err.Error())\<close> was called, the process is gone\<close>
  "processFileArgs L args w = processFileArgs_loop L args {} [] w"

subsection \<open>Direct input\<close>

record stdin =
  stdinStat :: "string + int"
  stdinRead :: "nat \<Rightarrow> string + string"

text \<open>
  \<open>stdinStat\<close> is \<^verbatim>\<open>os.Stdin.Stat()\<close>: the error text or the size it reports.
  \<open>stdinRead n\<close> is \<^verbatim>\<open>os.Stdin.Read\<close> on a buffer of \<open>n\<close> bytes: the error text or the
  bytes read. The buffer starts as \<open>n\<close> zero bytes, so a short read leaves zeros behind.
\<close>

definition getDirectInput :: "stdin \<Rightarrow> string \<Rightarrow> error + string" where
  "getDirectInput sin jsonStr =
     (case stdinStat sin of
        Inl e \<Rightarrow> Inl (CannotReadDirectInput e)
      | Inr sz \<Rightarrow>
          if sz > 0
          then (case stdinRead sin (nat sz) of
                  Inl e \<Rightarrow> Inl (CannotReadDirectInput e)
                | Inr bs \<Rightarrow>
                    Inr (take (nat sz) bs @ replicate (nat sz - length bs) (CHR 0x00)))
          else if jsonStr \<noteq> [] then Inr jsonStr
          else Inr [])"

subsection \<open>The startup summary\<close>

definition maxURLLen :: "MokFile list \<Rightarrow> int" where
  "maxURLLen files =
     foldl (\<lambda>m file. let urlLen = int (length (''GET '' @ URLPath file))
                       in if urlLen > m then urlLen else m) 0 files"

definition summaryLine :: "int \<Rightarrow> MokFile \<Rightarrow> string" where
  \<comment> \<open>the body of the second loop, ending in
      \<^verbatim>\<open>fmt.Printf("   %s%s  %s\n", url, spaces, source)\<close>; \<^verbatim>\<open>strings.Repeat\<close> panics on a
      negative count, which \<open>padding\<close> never is for a file of the list
      (\<open>summaryLine_aligned\<close> below)\<close>
  "summaryLine m file =
     (let url = URLPath file;
          source = ''('' @ FilePath file @ '')'';
          padding = m - int (length ('' '' @ url));
          spaces = replicate (nat padding) (CHR '' '')
      in ''   '' @ url @ spaces @ ''  '' @ source @ ''\<newline>'')"

definition printSummary :: "int \<Rightarrow> MokFile list \<Rightarrow> string" where
  "printSummary port files =
     (let baseURL = ''http://localhost:'' @ Itoa port
      in ''  mok is listening at '' @ baseURL @ ''\<newline>\<newline>''
         @ ''  available endpoints:\<newline>''
         @ concat (map (summaryLine (maxURLLen files)) files))"

definition directSummary :: "int \<Rightarrow> string" where
  \<comment> \<open>\<^verbatim>\<open>fmt.Printf("mok is serving direct input on http://localhost:%d/\n", port)\<close>\<close>
  "directSummary port = ''mok is serving direct input on http://localhost:'' @ Itoa port @ ''/\<newline>''"

subsection \<open>JSON documents\<close>

text \<open>
  \<^verbatim>\<open>json.Unmarshal\<close> first checks the whole input against the JSON grammar, then
  stores the value in the target, here a \<^verbatim>\<open>map[string]any\<close>. The grammar check is the
  scanner of \<^verbatim>\<open>encoding/json\<close>: a state machine that reads the input byte by byte, with
  a stack for the arrays and objects that are open (its top is the head of the list). It
  builds no value.
\<close>

datatype json_kind = KObject | KArray | KString | KNumber | KBool | KNull

datatype parse_state = ParseObjectKey | ParseObjectValue | ParseArrayValue

datatype scan_state =
    BeginValue
  | BeginValueOrEmpty
  | BeginStringOrEmpty
  | BeginString
  | EndValue
  | EndTop
  | InString
  | InStringEsc
  | InStringEscU nat
  | Neg
  | Num0
  | Num1
  | Dot
  | Dot0
  | ExpE
  | ExpESign
  | ExpE0
  | InLiteral string

type_synonym scanner = "scan_state \<times> parse_state list"

definition isSpace :: "char \<Rightarrow> bool" where
  "isSpace c = (c = CHR '' '' \<or> c = CHR 0x09 \<or> c = CHR 0x0D \<or> c = CHR 0x0A)"

definition skipSpace :: "string \<Rightarrow> string" where
  "skipSpace s = dropWhile isSpace s"

definition isDigit :: "char \<Rightarrow> bool" where
  "isDigit c = (c \<in> set ''0123456789'')"

definition isHex :: "char \<Rightarrow> bool" where
  "isHex c = (c \<in> set ''0123456789abcdefABCDEF'')"

definition maxNestingDepth :: nat where
  "maxNestingDepth = 10000"

definition pushParseState :: "parse_state \<Rightarrow> scan_state \<Rightarrow> parse_state list \<Rightarrow> scanner option" where
  "pushParseState p st ps =
     (if length (p # ps) \<le> maxNestingDepth then Some (st, p # ps) else None)"

definition popParseState :: "parse_state list \<Rightarrow> scanner" where
  "popParseState ps = (if ps = [] then (EndTop, []) else (EndValue, ps))"

definition stateEndTop :: "char \<Rightarrow> scanner option" where
  "stateEndTop c = (if isSpace c then Some (EndTop, []) else None)"

definition stateEndValue :: "parse_state list \<Rightarrow> char \<Rightarrow> scanner option" where
  \<comment> \<open>after a value: what may follow depends on what is open\<close>
  "stateEndValue ps c =
     (case ps of
        [] \<Rightarrow> stateEndTop c
      | p # rest \<Rightarrow>
          if isSpace c then Some (EndValue, ps)
          else (case p of
                  ParseObjectKey \<Rightarrow>
                    if c = CHR '':'' then Some (BeginValue, ParseObjectValue # rest) else None
                | ParseObjectValue \<Rightarrow>
                    if c = CHR '','' then Some (BeginString, ParseObjectKey # rest)
                    else if c = CHR ''}'' then Some (popParseState rest)
                    else None
                | ParseArrayValue \<Rightarrow>
                    if c = CHR '','' then Some (BeginValue, ps)
                    else if c = CHR '']'' then Some (popParseState rest)
                    else None))"

definition stateBeginValue :: "parse_state list \<Rightarrow> char \<Rightarrow> scanner option" where
  \<comment> \<open>the first byte of a value\<close>
  "stateBeginValue ps c =
     (if c = CHR ''{'' then pushParseState ParseObjectKey BeginStringOrEmpty ps
      else if c = CHR ''['' then pushParseState ParseArrayValue BeginValueOrEmpty ps
      else if c = CHR 0x22 then Some (InString, ps)
      else if c = CHR ''-'' then Some (Neg, ps)
      else if c = CHR ''0'' then Some (Num0, ps)
      else if c = CHR ''t'' then Some (InLiteral ''rue'', ps)
      else if c = CHR ''f'' then Some (InLiteral ''alse'', ps)
      else if c = CHR ''n'' then Some (InLiteral ''ull'', ps)
      else if isDigit c then Some (Num1, ps)
      else None)"

definition stateBeginString :: "parse_state list \<Rightarrow> char \<Rightarrow> scanner option" where
  "stateBeginString ps c = (if c = CHR 0x22 then Some (InString, ps) else None)"

definition state0 :: "parse_state list \<Rightarrow> char \<Rightarrow> scanner option" where
  \<comment> \<open>after the integer part of a number\<close>
  "state0 ps c =
     (if c = CHR ''.'' then Some (Dot, ps)
      else if c = CHR ''e'' \<or> c = CHR ''E'' then Some (ExpE, ps)
      else stateEndValue ps c)"

definition stateESign :: "parse_state list \<Rightarrow> char \<Rightarrow> scanner option" where
  "stateESign ps c = (if isDigit c then Some (ExpE0, ps) else None)"

fun step :: "scanner \<Rightarrow> char \<Rightarrow> scanner option" where
  "step (BeginValue, ps) c =
     (if isSpace c then Some (BeginValue, ps) else stateBeginValue ps c)"
| "step (BeginValueOrEmpty, ps) c =
     (if isSpace c then Some (BeginValueOrEmpty, ps)
      else if c = CHR '']'' then stateEndValue ps c
      else stateBeginValue ps c)"
| "step (BeginStringOrEmpty, ps) c =
     (if isSpace c then Some (BeginStringOrEmpty, ps)
      else if c = CHR ''}'' then stateEndValue (ParseObjectValue # tl ps) c
      else stateBeginString ps c)"
| "step (BeginString, ps) c =
     (if isSpace c then Some (BeginString, ps) else stateBeginString ps c)"
| "step (EndValue, ps) c = stateEndValue ps c"
| "step (EndTop, ps) c = stateEndTop c"
| "step (InString, ps) c =
     (if c = CHR 0x22 then Some (EndValue, ps)
      else if c = CHR 0x5C then Some (InStringEsc, ps)
      else if (of_char c :: nat) < 0x20 then None
      else Some (InString, ps))"
| "step (InStringEsc, ps) c =
     (if c = CHR 0x22 \<or> c = CHR 0x5C \<or> c \<in> set ''/bfnrt'' then Some (InString, ps)
      else if c = CHR ''u'' then Some (InStringEscU 4, ps)
      else None)"
| "step (InStringEscU n, ps) c =
     (if \<not> isHex c then None
      else if n \<le> 1 then Some (InString, ps)
      else Some (InStringEscU (n - 1), ps))"
| "step (Neg, ps) c =
     (if c = CHR ''0'' then Some (Num0, ps)
      else if isDigit c then Some (Num1, ps)
      else None)"
| "step (Num1, ps) c = (if isDigit c then Some (Num1, ps) else state0 ps c)"
| "step (Num0, ps) c = state0 ps c"
| "step (Dot, ps) c = (if isDigit c then Some (Dot0, ps) else None)"
| "step (Dot0, ps) c =
     (if isDigit c then Some (Dot0, ps)
      else if c = CHR ''e'' \<or> c = CHR ''E'' then Some (ExpE, ps)
      else stateEndValue ps c)"
| "step (ExpE, ps) c =
     (if c = CHR ''+'' \<or> c = CHR ''-'' then Some (ExpESign, ps) else stateESign ps c)"
| "step (ExpESign, ps) c = stateESign ps c"
| "step (ExpE0, ps) c = (if isDigit c then Some (ExpE0, ps) else stateEndValue ps c)"
| "step (InLiteral w, ps) c =
     (case w of
        [] \<Rightarrow> None
      | x # xs \<Rightarrow>
          if c \<noteq> x then None
          else if xs = [] then Some (EndValue, ps)
          else Some (InLiteral xs, ps))"

fun scan :: "scanner \<Rightarrow> string \<Rightarrow> scanner option" where
  "scan s [] = Some s"
| "scan s (c # cs) = (case step s c of None \<Rightarrow> None | Some s' \<Rightarrow> scan s' cs)"

definition eof :: "scanner \<Rightarrow> bool" where
  \<comment> \<open>the input may end here: a last step on a space closes a number or a literal\<close>
  "eof s =
     (fst s = EndTop \<or> (case step s (CHR '' '') of Some (st, _) \<Rightarrow> st = EndTop | None \<Rightarrow> False))"

definition checkValid :: "string \<Rightarrow> bool" where
  "checkValid b = (case scan (BeginValue, []) b of None \<Rightarrow> False | Some s \<Rightarrow> eof s)"

definition kindOfFirst :: "char \<Rightarrow> json_kind" where
  "kindOfFirst c =
     (if c = CHR ''{'' then KObject
      else if c = CHR ''['' then KArray
      else if c = CHR 0x22 then KString
      else if c = CHR ''t'' \<or> c = CHR ''f'' then KBool
      else if c = CHR ''n'' then KNull
      else KNumber)"

definition jsonKind :: "string \<Rightarrow> json_kind option" where
  \<comment> \<open>the kind of the value of a valid document, told by its first byte that is not
      space; \<open>None\<close>: the input is not valid JSON\<close>
  "jsonKind b =
     (if checkValid b
      then (case skipSpace b of [] \<Rightarrow> None | c # _ \<Rightarrow> Some (kindOfFirst c))
      else None)"

definition kindName :: "json_kind \<Rightarrow> string" where
  "kindName k =
     (case k of KObject \<Rightarrow> ''object'' | KArray \<Rightarrow> ''array'' | KString \<Rightarrow> ''string''
      | KNumber \<Rightarrow> ''number'' | KBool \<Rightarrow> ''bool'' | KNull \<Rightarrow> ''null'')"

definition Unmarshal :: "lib \<Rightarrow> string \<Rightarrow> string option" where
  \<comment> \<open>\<^verbatim>\<open>json.Unmarshal(input, &dat)\<close> with \<^verbatim>\<open>dat map[string]any\<close>: the text of the
      error, or \<open>None\<close>. An object fills the map, \<^verbatim>\<open>null\<close> leaves it nil without an
      error, any other value is a type error.\<close>
  "Unmarshal L input =
     (case jsonKind input of
        None \<Rightarrow> Some (jsonSyntaxError L input)
      | Some KObject \<Rightarrow> jsonObjectError L input
      | Some KNull \<Rightarrow> None
      | Some k \<Rightarrow>
          Some (''json: cannot unmarshal '' @ kindName k
                @ '' into Go value of type map[string]interface {}''))"

definition EncodeMap :: "lib \<Rightarrow> string \<Rightarrow> string" where
  \<comment> \<open>\<^verbatim>\<open>json.NewEncoder(w).Encode(dat)\<close> for the map decoded from \<open>input\<close>\<close>
  "EncodeMap L input =
     (if jsonKind input = Some KNull then ''null\<newline>'' else jsonReencode L input)"

subsection \<open>Requests, responses and the request multiplexer\<close>

record request =
  reqPath :: string
  reqAccept :: string

record response =
  respStatus :: nat
  respBody :: string

type_synonym disk = "string \<rightharpoonup> entry"
type_synonym handler = "disk \<Rightarrow> request \<Rightarrow> response"
type_synonym mux = "(string \<times> handler) list"

text \<open>
  A handler sees the request and the file system as it is when the request arrives.
  The multiplexer of \<^verbatim>\<open>net/http\<close> is the list of registered patterns. The patterns of
  this program are \<^verbatim>\<open>/\<close> and \<^verbatim>\<open>/\<close> followed by a file name; they are read as fixed
  paths (a file name with a space or a brace in it, which the pattern syntax of the
  library gives a meaning to, is outside the model), and \<^verbatim>\<open>/\<close> receives every path that
  has no handler of its own. Registering a pattern twice panics.
\<close>

datatype panic = MultipleRegistrations string

definition HandleFunc :: "string \<Rightarrow> handler \<Rightarrow> mux \<Rightarrow> panic + mux" where
  "HandleFunc pattern h m =
     (if pattern \<in> fst ` set m then Inl (MultipleRegistrations pattern)
      else Inr (m @ [(pattern, h)]))"

definition dispatch :: "mux \<Rightarrow> string \<Rightarrow> handler option" where
  "dispatch m p = (case map_of m p of Some h \<Rightarrow> Some h | None \<Rightarrow> map_of m ''/'')"

definition NotFound :: response where
  "NotFound = \<lparr>respStatus = 404, respBody = ''404 page not found\<newline>''\<rparr>"

definition handle :: "mux \<Rightarrow> disk \<Rightarrow> request \<Rightarrow> response" where
  "handle m d r = (case dispatch m (reqPath r) of Some h \<Rightarrow> h d r | None \<Rightarrow> NotFound)"

definition httpError :: "string \<Rightarrow> nat \<Rightarrow> response" where
  \<comment> \<open>\<^verbatim>\<open>http.Error(w, msg, code)\<close>\<close>
  "httpError msg code = \<lparr>respStatus = code, respBody = msg @ ''\<newline>''\<rparr>"

definition ServeFile :: "disk \<Rightarrow> string \<Rightarrow> response" where
  \<comment> \<open>\<^verbatim>\<open>http.ServeFile\<close> answering a plain GET: the bytes of a regular file\<close>
  "ServeFile d name =
     (case d name of
        Some (File bs) \<Rightarrow> \<lparr>respStatus = 200, respBody = bs\<rparr>
      | _ \<Rightarrow> NotFound)"

subsection \<open>The handlers of the program\<close>

definition serveDirectInput :: "lib \<Rightarrow> string \<Rightarrow> response" where
  "serveDirectInput L input =
     (case Unmarshal L input of
        Some err \<Rightarrow> httpError (''Invalid JSON: '' @ err) 500
      | None \<Rightarrow> \<lparr>respStatus = 200, respBody = EncodeMap L input\<rparr>)"

fun joinComma :: "string list \<Rightarrow> string" where
  "joinComma [] = []"
| "joinComma [x] = x"
| "joinComma (x # y # ys) = x @ '','' @ joinComma (y # ys)"

definition encodeFile :: "lib \<Rightarrow> MokFile \<Rightarrow> string" where
  "encodeFile L f =
     ''{\"FilePath\":'' @ jsonQuote L (FilePath f) @ '',\"URLPath\":'' @ jsonQuote L (URLPath f) @ ''}''"

definition EncodeFiles :: "lib \<Rightarrow> MokFile list \<Rightarrow> string" where
  \<comment> \<open>\<^verbatim>\<open>json.NewEncoder(w).Encode(files)\<close>; a slice nothing was appended to is nil\<close>
  "EncodeFiles L files =
     (if files = [] then ''null'' else ''['' @ joinComma (map (encodeFile L) files) @ '']'')
     @ ''\<newline>''"

definition indexHead :: string where
  "indexHead =
     ''\<newline>'' @
     ''<!doctype html>\<newline>'' @
     ''<html lang=\"en\">\<newline>'' @
     ''    <head>\<newline>'' @
     ''        <meta charset=\"UTF-8\" />\<newline>'' @
     ''        <meta\<newline>'' @
     ''            name=\"viewport\"\<newline>'' @
     ''            content=\"width=device-width, user-scalable=no, initial-scale=1.0, maximum-scale=1.0, minimum-scale=1.0\"\<newline>'' @
     ''        />\<newline>'' @
     ''        <title>mok</title>\<newline>'' @
     ''    </head>\<newline>'' @
     ''    <body>\<newline>'' @
     ''        <h1>mok</h1>\<newline>'' @
     ''        available endpoints:\<newline>'' @
     ''        <ul>\<newline>'' @
     ''            ''"

definition indexItem :: "lib \<Rightarrow> MokFile \<Rightarrow> string" where
  "indexItem L f =
     ''\<newline>'' @
     ''            <li><a href=\"'' @ escapeHref L (URLPath f) @ ''\">''
       @ escapeText L (FilePath f) @ ''</a></li>\<newline>'' @
     ''            ''"

definition indexTail :: string where
  "indexTail =
     ''\<newline>'' @
     ''        </ul>\<newline>'' @
     ''    </body>\<newline>'' @
     ''</html>\<newline>''"

definition indexTemplate :: "lib \<Rightarrow> MokFile list \<Rightarrow> string" where
  \<comment> \<open>\<^verbatim>\<open>tmpl.Execute(w, files)\<close>\<close>
  "indexTemplate L files = indexHead @ concat (map (indexItem L) files) @ indexTail"

definition rootHandler :: "lib \<Rightarrow> string \<Rightarrow> MokFile list \<Rightarrow> handler" where
  "rootHandler L directInput files = (\<lambda>d r.
     if length directInput > 0 then serveDirectInput L directInput
     else if reqAccept r = ''application/json''
     then \<lparr>respStatus = 200, respBody = EncodeFiles L files\<rparr>
     else \<lparr>respStatus = 200, respBody = indexTemplate L files\<rparr>)"

fun registerFiles :: "MokFile list \<Rightarrow> mux \<Rightarrow> panic + mux" where
  "registerFiles [] m = Inr m"
| "registerFiles (f # files) m =
     (case Split (FilePath f) of
        (_, fileName) \<Rightarrow>
          (case HandleFunc (''/'' @ fileName) (\<lambda>d r. ServeFile d (FilePath f)) m of
             Inl p \<Rightarrow> Inl p
           | Inr m' \<Rightarrow> registerFiles files m'))"

definition setupHandlers :: "lib \<Rightarrow> string \<Rightarrow> MokFile list \<Rightarrow> panic + mux" where
  "setupHandlers L directInput files =
     (case HandleFunc ''/'' (rootHandler L directInput files) [] of
        Inl p \<Rightarrow> Inl p
      | Inr m \<Rightarrow> registerFiles files m)"

subsection \<open>The program\<close>

record flags =
  portFlag :: int
  jsonStrFlag :: string
  argsFlag :: "string list"

datatype process = Exited error | Panicked panic | Serving mux

record run =
  process :: process
  stdout :: string
  finalWorld :: world

text \<open>
  \<open>main\<close> starts after \<^verbatim>\<open>flag.Parse()\<close>. \<open>Exited err\<close> is \<^verbatim>\<open>errAndExit\<close>: the text of
  the error goes to standard error after \<^verbatim>\<open>error: \<close> and the process exits with
  status 1. \<open>Serving m\<close> is the process blocked in \<^verbatim>\<open>http.ListenAndServe\<close> with the
  handlers \<open>m\<close>.
\<close>

definition main :: "lib \<Rightarrow> stdin \<Rightarrow> flags \<Rightarrow> world \<Rightarrow> run" where
  "main L sin fl w =
     (case getDirectInput sin (jsonStrFlag fl) of
        Inl err \<Rightarrow> \<lparr>process = Exited err, stdout = [], finalWorld = w\<rparr>
      | Inr directInput \<Rightarrow>
          if length (argsFlag fl) < 1 \<and> length directInput = 0
          then \<lparr>process = Exited NoFileSpecified, stdout = [], finalWorld = w\<rparr>
          else
            (case processFileArgs L (argsFlag fl) w of
               (Inl err, w') \<Rightarrow> \<lparr>process = Exited err, stdout = [], finalWorld = w'\<rparr>
             | (Inr files, w') \<Rightarrow>
                 (case setupHandlers L directInput files of
                    Inl p \<Rightarrow> \<lparr>process = Panicked p, stdout = [], finalWorld = w'\<rparr>
                  | Inr m \<Rightarrow>
                      (let out = (if length directInput = 0
                                  then printSummary (portFlag fl) files
                                  else directSummary (portFlag fl))
                       in case bindError w' of
                            Some e \<Rightarrow>
                              \<lparr>process = Exited (HttpListen e), stdout = out, finalWorld = w'\<rparr>
                          | None \<Rightarrow>
                              \<lparr>process = Serving m, stdout = out, finalWorld = w'\<rparr>))))"


subsection \<open>Notions used in the statements\<close>

definition firstOccurrences :: "'a list \<Rightarrow> 'a list" where
  \<comment> \<open>every element once, at the place of its first occurrence\<close>
  "firstOccurrences xs = rev (remdups (rev xs))"

fun resolveAll :: "lib \<Rightarrow> string list \<Rightarrow> world \<Rightarrow> (error + string list) \<times> world" where
  \<comment> \<open>the arguments resolved one after the other, nothing else done\<close>
  "resolveAll L [] w = (Inr [], w)"
| "resolveAll L (arg # args) w =
     (case resolveFile L arg w of
        (Inl err, w') \<Rightarrow> (Inl err, w')
      | (Inr p, w') \<Rightarrow>
          (case resolveAll L args w' of
             (Inl err, w'') \<Rightarrow> (Inl err, w'')
           | (Inr ps, w'') \<Rightarrow> (Inr (p # ps), w'')))"

definition routeOf :: "string \<Rightarrow> MokFile" where
  "routeOf p = \<lparr>FilePath = p, URLPath = ''/'' @ Base p\<rparr>"

inductive resolvesTo :: "lib \<Rightarrow> string \<Rightarrow> string \<Rightarrow> string \<Rightarrow> bool" where
  \<comment> \<open>the path of a local argument is the argument; the path of a remote one is a
      temporary file in \<open>dir\<close> named after the host of the URL\<close>
  local: "\<not> isRemote arg \<Longrightarrow> resolvesTo L dir arg arg"
| remote: "isRemote arg \<Longrightarrow> urlHost L arg = Inr host
           \<Longrightarrow> \<not> (\<exists>c \<in> set host. isPathSeparator c)
           \<Longrightarrow> resolvesTo L dir arg
                 (joinPath dir (''mok-'' @ host @ ''.'' @ Uitoa n @ ''.json''))"

definition longestURL :: "MokFile list \<Rightarrow> nat" where
  \<comment> \<open>the length of the longest URL path of the list\<close>
  "longestURL files = foldr (\<lambda>f m. max (length (URLPath f)) m) files 0"

fun Contains :: "string \<Rightarrow> string \<Rightarrow> bool" where
  \<comment> \<open>\<open>sub\<close> occurs in the text\<close>
  "Contains [] sub = (sub = [])"
| "Contains (c # cs) sub = (HasPrefix (c # cs) sub \<or> Contains cs sub)"

definition patternOf :: "MokFile \<Rightarrow> string" where
  \<comment> \<open>the pattern the loop of \<open>setupHandlers\<close> registers for a route\<close>
  "patternOf f = ''/'' @ snd (Split (FilePath f))"

definition fileEntry :: "MokFile \<Rightarrow> string \<times> handler" where
  \<comment> \<open>the pattern and the handler registered for a route\<close>
  "fileEntry f = (patternOf f, (\<lambda>d r. ServeFile d (FilePath f)))"

definition respond :: "run \<Rightarrow> disk \<Rightarrow> request \<Rightarrow> response option" where
  \<comment> \<open>the answer to a request sent to the program, if it is serving\<close>
  "respond p d r = (case process p of Serving m \<Rightarrow> Some (handle m d r) | _ \<Rightarrow> None)"

subsection \<open>A concrete environment\<close>

text \<open>
  The statements below hold for every library and every world. The examples are
  evaluated with the following ones. \<open>plainLib\<close> gives the library functions as they
  act on plain input: the host of a URL is the text between \<^verbatim>\<open>://\<close> and the next
  \<^verbatim>\<open>/\<close>, and text without quotes, backslashes, control or markup characters is
  quoted and escaped unchanged.
\<close>

definition hostOf :: "string \<Rightarrow> string + string" where
  "hostOf u =
     (let rest = (if HasPrefix u ''https://'' then drop 8 u
                  else if HasPrefix u ''http://'' then drop 7 u else [])
      in Inr (takeWhile (\<lambda>c. c \<noteq> CHR ''/'') rest))"

definition plainLib :: lib where
  "plainLib =
     \<lparr>urlHost = hostOf,
      jsonQuote = (\<lambda>s. CHR 0x22 # s @ [CHR 0x22]),
      jsonReencode = (\<lambda>b. b @ ''\<newline>''),
      jsonSyntaxError = (\<lambda>b. ''unexpected end of JSON input''),
      jsonObjectError = (\<lambda>b. None),
      escapeHref = (\<lambda>s. s),
      escapeText = (\<lambda>s. s)\<rparr>"

definition jsonOK :: http_response where
  "jsonOK =
     \<lparr>StatusCode = 200, Status = ''200 OK'', ContentType = ''application/json'',
      Body = ''{}'', BodyError = None\<rparr>"

definition world0 :: world where
  "world0 =
     \<lparr>fsys = [''a.json'' \<mapsto> File ''{\"a\":1}'', ''d/b.json'' \<mapsto> File ''[]'', ''d'' \<mapsto> Dir,
              ''e/b.json'' \<mapsto> File ''{}''],
      tmpDir = ''/tmp'',
      randoms = [7, 12],
      network = (\<lambda>u. if u = ''http://h/x'' then Inr jsonOK else Inl ''no route to host''),
      requests = [],
      verboseFlag = False,
      logLines = [],
      bindError = None\<rparr>"

definition world1 :: world where
  \<comment> \<open>as \<open>world0\<close>, with a document at a longer URL\<close>
  "world1 =
     world0\<lparr>network :=
       (\<lambda>u. if u = ''http://h/x/data.json'' then Inr jsonOK else Inl ''no route to host'')\<rparr>"

definition emptyStdin :: stdin where
  "emptyStdin = \<lparr>stdinStat = Inr 0, stdinRead = (\<lambda>n. Inr [])\<rparr>"


section \<open>Properties\<close>

subsection \<open>Order-preserving deduplication\<close>

lemma remdups_snoc: "remdups (ys @ [x]) = filter (\<lambda>y. y \<noteq> x) (remdups ys) @ [x]"
  by (induction ys) auto

lemma firstOccurrences_Nil: "firstOccurrences [] = []"
  by (simp add: firstOccurrences_def)

lemma firstOccurrences_Cons:
  "firstOccurrences (x # xs) = x # filter (\<lambda>y. y \<noteq> x) (firstOccurrences xs)"
  by (simp add: firstOccurrences_def remdups_snoc rev_filter)

lemma set_firstOccurrences: "set (firstOccurrences xs) = set xs"
  by (simp add: firstOccurrences_def)

lemma distinct_firstOccurrences: "distinct (firstOccurrences xs)"
  by (simp add: firstOccurrences_def)

lemma loop_resolveAll:
  "processFileArgs_loop L args seen files w =
     (case resolveAll L args w of
        (Inl err, w') \<Rightarrow> (Inl err, w')
      | (Inr ps, w') \<Rightarrow>
          (Inr (files @ map routeOf (filter (\<lambda>p. p \<notin> seen) (firstOccurrences ps))), w'))"
proof (induction args arbitrary: seen files w)
  case Nil
  show ?case by (simp add: firstOccurrences_Nil)
next
  case (Cons arg args)
  show ?case
  proof (cases "resolveFile L arg w")
    case (Pair r w1)
    show ?thesis
    proof (cases r)
      case (Inl e)
      with Pair show ?thesis by simp
    next
      case (Inr p)
      have fresh: "\<And>S ps. filter (\<lambda>q. q \<notin> insert p S) ps
                     = filter (\<lambda>q. q \<notin> S) (filter (\<lambda>y. y \<noteq> p) ps)"
        by (auto intro: filter_cong)
      have known: "\<And>ps. p \<in> seen \<Longrightarrow>
                     filter (\<lambda>x. x \<noteq> p \<and> x \<notin> seen) ps = filter (\<lambda>q. q \<notin> seen) ps"
        by (auto intro: filter_cong)
      show ?thesis
        using Pair Inr Cons.IH [of seen files w1]
              Cons.IH [of "insert p seen" "files @ [routeOf p]" w1]
        by (auto simp: firstOccurrences_Cons routeOf_def fresh known
                 split: prod.splits sum.splits)
    qed
  qed
qed

lemma processFileArgs_resolveAll:
  "processFileArgs L args w =
     (case resolveAll L args w of
        (Inl err, w') \<Rightarrow> (Inl err, w')
      | (Inr ps, w') \<Rightarrow> (Inr (map routeOf (firstOccurrences ps)), w'))"
  by (simp add: processFileArgs_def loop_resolveAll split: prod.splits sum.splits)

lemma FilePath_routeOf [simp]: "FilePath (routeOf p) = p"
  by (simp add: routeOf_def)

lemma URLPath_routeOf [simp]: "URLPath (routeOf p) = ''/'' @ Base p"
  by (simp add: routeOf_def)

lemma map_FilePath_routeOf [simp]: "map (FilePath \<circ> routeOf) ps = ps"
  by (induction ps) simp_all

lemma processFileArgs_paths:
  assumes "processFileArgs L args w = (Inr files, w')"
  shows "\<exists>paths. resolveAll L args w = (Inr paths, w')
           \<and> files = map routeOf (firstOccurrences paths)
           \<and> map FilePath files = firstOccurrences paths
           \<and> distinct (map FilePath files)
           \<and> set (map FilePath files) = set paths"
proof (cases "resolveAll L args w")
  case (Pair r w1)
  show ?thesis
  proof (cases r)
    case (Inl e)
    with Pair assms show ?thesis by (simp add: processFileArgs_resolveAll)
  next
    case (Inr ps)
    with Pair assms have "files = map routeOf (firstOccurrences ps)" and "w1 = w'"
      by (simp_all add: processFileArgs_resolveAll)
    with Pair Inr show ?thesis
      by (simp add: distinct_firstOccurrences set_firstOccurrences image_def)
  qed
qed

text \<open>
  C1. The routes \<open>processFileArgs\<close> returns are the resolved paths of the arguments, each
  once, in the order of first occurrence. The world it returns is the one the resolutions
  alone leave: skipping a repeated path prints and changes nothing.
\<close>

theorem processFileArgs_first_occurrences:
  assumes "processFileArgs L args w = (Inr files, w')"
  shows "\<exists>paths. resolveAll L args w = (Inr paths, w')
           \<and> files = map routeOf (firstOccurrences paths)
           \<and> map FilePath files = firstOccurrences paths
           \<and> distinct (map FilePath files)
           \<and> set (map FilePath files) = set paths"
  using assms by (rule processFileArgs_paths)

lemma world0_local_args:
  "processFileArgs plainLib [''a.json'', ''d/b.json'', ''a.json''] world0
     = (Inr [\<lparr>FilePath = ''a.json'', URLPath = ''/a.json''\<rparr>,
             \<lparr>FilePath = ''d/b.json'', URLPath = ''/b.json''\<rparr>], world0)"
  by (simp add: processFileArgs_def resolveFile_def isRemote_def HasPrefix_def world0_def
        Base_def lastElement_def stripTrailing_def isPathSeparator_def)

theorem processFileArgs_first_occurrences_witness:
  "\<exists>paths. resolveAll plainLib [''a.json'', ''d/b.json'', ''a.json''] world0 = (Inr paths, world0)
     \<and> [\<lparr>FilePath = ''a.json'', URLPath = ''/a.json''\<rparr>,
         \<lparr>FilePath = ''d/b.json'', URLPath = ''/b.json''\<rparr>] = map routeOf (firstOccurrences paths)
     \<and> map FilePath [\<lparr>FilePath = ''a.json'', URLPath = ''/a.json''\<rparr>,
                      \<lparr>FilePath = ''d/b.json'', URLPath = ''/b.json''\<rparr>] = firstOccurrences paths
     \<and> distinct (map FilePath [\<lparr>FilePath = ''a.json'', URLPath = ''/a.json''\<rparr>,
                      \<lparr>FilePath = ''d/b.json'', URLPath = ''/b.json''\<rparr>])
     \<and> set (map FilePath [\<lparr>FilePath = ''a.json'', URLPath = ''/a.json''\<rparr>,
                      \<lparr>FilePath = ''d/b.json'', URLPath = ''/b.json''\<rparr>]) = set paths"
  by (rule processFileArgs_first_occurrences [OF world0_local_args])

subsection \<open>What a resolution does to the world\<close>

lemma logInfo_fields [simp]:
  "fsys (logInfo ev w) = fsys w"
  "tmpDir (logInfo ev w) = tmpDir w"
  "randoms (logInfo ev w) = randoms w"
  "network (logInfo ev w) = network w"
  "requests (logInfo ev w) = requests w"
  "verboseFlag (logInfo ev w) = verboseFlag w"
  "bindError (logInfo ev w) = bindError w"
  by (simp_all add: logInfo_def)

lemma tempName_logInfo [simp]: "tempName (logInfo ev w) pat n = tempName w pat n"
  by (simp add: tempName_def)

lemma CreateTemp_Inr:
  assumes "CreateTemp pat w = (Inr name, w')"
  shows "\<exists>n. name = tempName w pat n"
    and "fsys w name = None"
    and "fsys w' = (fsys w)(name \<mapsto> File [])"
    and "\<not> (\<exists>c \<in> set pat. isPathSeparator c)"
    and "tmpDir w' = tmpDir w" and "network w' = network w" and "requests w' = requests w"
    and "verboseFlag w' = verboseFlag w" and "bindError w' = bindError w"
    and "logLines w' = logLines w"
proof -
  from assms have sep: "\<not> (\<exists>c \<in> set pat. isPathSeparator c)"
    by (auto simp: CreateTemp_def split: if_splits)
  from assms sep obtain n ns
    where d: "dropWhile (\<lambda>n. fsys w (tempName w pat n) \<noteq> None) (randoms w) = n # ns"
    by (auto simp: CreateTemp_def split: list.splits)
  from d have free: "fsys w (tempName w pat n) = None"
    by (auto simp: dropWhile_eq_Cons_conv)
  from assms sep d have name: "name = tempName w pat n"
    and w': "w' = w\<lparr>randoms := ns, fsys := (fsys w)(tempName w pat n \<mapsto> File [])\<rparr>"
    by (auto simp: CreateTemp_def)
  show "\<exists>n. name = tempName w pat n" using name by blast
  show "fsys w name = None" using name free by simp
  show "fsys w' = (fsys w)(name \<mapsto> File [])" using name w' by simp
  show "\<not> (\<exists>c \<in> set pat. isPathSeparator c)" by (rule sep)
  show "tmpDir w' = tmpDir w" "network w' = network w" "requests w' = requests w"
       "verboseFlag w' = verboseFlag w" "bindError w' = bindError w" "logLines w' = logLines w"
    using w' by simp_all
qed

lemma CreateTemp_Inl:
  assumes "CreateTemp pat w = (Inl e, w')"
  shows "fsys w' = fsys w" and "tmpDir w' = tmpDir w" and "network w' = network w"
    and "requests w' = requests w" and "verboseFlag w' = verboseFlag w"
    and "bindError w' = bindError w" and "logLines w' = logLines w"
  using assms by (auto simp: CreateTemp_def split: if_splits list.splits)

text \<open>The outcome of a download, case by case, in the order of the checks.\<close>

lemma downloadJSON_cases:
  assumes "downloadJSON L u w = (res, w')"
  obtains
    (parse) e where "urlHost L u = Inl e" "res = Inl (ParseURL e)"
      "requests w' = requests w" "fsys w' = fsys w"
  | (temp) host e where "urlHost L u = Inr host" "res = Inl (CreateTempFile e)"
      "requests w' = requests w" "fsys w' = fsys w"
  | (get) host name e where "urlHost L u = Inr host" "network w u = Inl e"
      "res = Inl (Download e)" "requests w' = requests w @ [u]"
      "fsys w name = None" "fsys w' = (fsys w)(name \<mapsto> File [])"
  | (ctype) host name resp where "urlHost L u = Inr host" "network w u = Inr resp"
      "ContentType resp \<noteq> ''application/json''"
      "res = Inl (UnexpectedContentType u (ContentType resp))"
      "requests w' = requests w @ [u]"
      "fsys w name = None" "fsys w' = (fsys w)(name \<mapsto> File [])"
  | (status) host name resp where "urlHost L u = Inr host" "network w u = Inr resp"
      "ContentType resp = ''application/json''" "StatusCode resp \<noteq> 200"
      "res = Inl (DownloadFailed (Status resp))"
      "requests w' = requests w @ [u]"
      "fsys w name = None" "fsys w' = (fsys w)(name \<mapsto> File [])"
  | (save) host name resp e where "urlHost L u = Inr host" "network w u = Inr resp"
      "ContentType resp = ''application/json''" "StatusCode resp = 200"
      "BodyError resp = Some e" "res = Inl (Save e)"
      "requests w' = requests w @ [u]"
      "fsys w name = None" "fsys w' = (fsys w)(name \<mapsto> File (Body resp))"
  | (ok) host n resp where "urlHost L u = Inr host" "network w u = Inr resp"
      "ContentType resp = ''application/json''" "StatusCode resp = 200"
      "BodyError resp = None"
      "res = Inr (tempName w (''mok-'' @ host @ ''.*.json'') n)"
      "\<not> (\<exists>c \<in> set host. isPathSeparator c)"
      "requests w' = requests w @ [u]"
      "fsys w (tempName w (''mok-'' @ host @ ''.*.json'') n) = None"
      "fsys w' = (fsys w)(tempName w (''mok-'' @ host @ ''.*.json'') n \<mapsto> File (Body resp))"
proof (cases "urlHost L u")
  case (Inl e)
  with assms show ?thesis
    by (intro parse [of e]) (auto simp: downloadJSON_def Let_def)
next
  case (Inr host)
  let ?w1 = "logInfo (LogDownloading u) w"
  let ?pat = "''mok-'' @ host @ ''.*.json''"
  obtain r2 w2 where ct: "CreateTemp ?pat ?w1 = (r2, w2)" by (cases "CreateTemp ?pat ?w1")
  show ?thesis
  proof (cases r2)
    case (Inl e)
    with assms Inr ct CreateTemp_Inl [of ?pat ?w1 e w2] show ?thesis
      by (intro temp [of host e]) (auto simp: downloadJSON_def Let_def)
  next
    case r2: (Inr name)
    note T = CreateTemp_Inr [OF ct [unfolded r2]]
    let ?w3 = "logInfo (LogCreatingTemp name) w2"
    have net: "network ?w3 u = network w u" using T by simp
    have req: "requests (?w3\<lparr>requests := requests ?w3 @ [u]\<rparr>) = requests w @ [u]"
      using T by simp
    have f0: "fsys w name = None" using T by simp
    have f3: "fsys ?w3 = (fsys w)(name \<mapsto> File [])" using T by simp
    show ?thesis
    proof (cases "network w u")
      case (Inl e)
      with assms Inr ct r2 net req f0 f3 show ?thesis
        by (intro get [of host e name]) (auto simp: downloadJSON_def Let_def httpGet_def)
    next
      case resp: (Inr resp)
      show ?thesis
      proof (cases "ContentType resp = ''application/json''")
        case False
        with assms Inr ct r2 net req f0 f3 resp show ?thesis
          by (intro ctype [of host resp name]) (auto simp: downloadJSON_def Let_def httpGet_def)
      next
        case ctok: True
        show ?thesis
        proof (cases "StatusCode resp = 200")
          case False
          with assms Inr ct r2 net req f0 f3 resp ctok show ?thesis
            by (intro status [of host resp name])
               (auto simp: downloadJSON_def Let_def httpGet_def)
        next
          case stok: True
          show ?thesis
          proof (cases "BodyError resp")
            case (Some e)
            with assms Inr ct r2 net req f0 f3 resp ctok stok show ?thesis
              by (intro save [of host resp e name])
                 (auto simp: downloadJSON_def Let_def httpGet_def ioCopy_def)
          next
            case None
            from T(1) obtain n where n: "name = tempName w ?pat n" by auto
            from T(4) have nosep: "\<not> (\<exists>c \<in> set host. isPathSeparator c)" by auto
            from assms Inr ct r2 net req f0 f3 resp ctok stok None n nosep show ?thesis
              by (intro ok [of host resp n])
                 (auto simp: downloadJSON_def Let_def httpGet_def ioCopy_def)
          qed
        qed
      qed
    qed
  qed
qed

lemma resolveFile_local:
  "\<not> isRemote arg \<Longrightarrow>
   resolveFile L arg w =
     (case fsys w arg of
        None \<Rightarrow> (Inl (CheckingFile arg), w)
      | Some Dir \<Rightarrow> (Inl (IsDirectory arg), w)
      | Some (File c) \<Rightarrow> (Inr arg, w))"
  by (simp add: resolveFile_def)

lemma resolveFile_remote:
  "isRemote arg \<Longrightarrow>
   resolveFile L arg w =
     (case downloadJSON L arg w of
        (Inl err, w') \<Rightarrow> (Inl (DownloadingRemote err), w')
      | (Inr file, w') \<Rightarrow> (Inr file, w'))"
  by (simp add: resolveFile_def)

lemma downloadJSON_keeps:
  assumes "downloadJSON L u w = (res, w')" and "fsys w p = Some e"
  shows "fsys w' p = Some e"
  using assms(1)
  by (cases rule: downloadJSON_cases) (use assms(2) in auto)

lemma resolveFile_keeps:
  assumes "resolveFile L arg w = (res, w')" and "fsys w p = Some e"
  shows "fsys w' p = Some e"
proof (cases "isRemote arg")
  case True
  obtain r1 w1 where d: "downloadJSON L arg w = (r1, w1)" by (cases "downloadJSON L arg w")
  from assms(1) True d have "w' = w1"
    by (auto simp: resolveFile_remote split: sum.splits)
  with downloadJSON_keeps [OF d assms(2)] show ?thesis by simp
next
  case False
  with assms show ?thesis
    by (auto simp: resolveFile_local split: option.splits entry.splits)
qed

lemma resolveAll_append:
  "resolveAll L (xs @ ys) w =
     (case resolveAll L xs w of
        (Inl err, w1) \<Rightarrow> (Inl err, w1)
      | (Inr ps, w1) \<Rightarrow>
          (case resolveAll L ys w1 of
             (Inl err, w2) \<Rightarrow> (Inl err, w2)
           | (Inr qs, w2) \<Rightarrow> (Inr (ps @ qs), w2)))"
  by (induction xs arbitrary: w) (auto split: prod.splits sum.splits)

lemma resolveAll_length:
  "resolveAll L args w = (Inr ps, w') \<Longrightarrow> length ps = length args"
  by (induction args arbitrary: w ps) (auto split: prod.splits sum.splits)

lemma resolveAll_local_again:
  assumes "\<not> isRemote a" and "fsys w a = Some (File c)"
  shows "resolveAll L (ys @ a # zs) w =
           (case resolveAll L (ys @ zs) w of
              (Inl err, w') \<Rightarrow> (Inl err, w')
            | (Inr ps, w') \<Rightarrow> (Inr (take (length ys) ps @ a # drop (length ys) ps), w'))"
  using assms(2)
proof (induction ys arbitrary: w)
  case Nil
  with assms(1) show ?case
    by (auto simp: resolveFile_local split: prod.splits sum.splits)
next
  case (Cons y ys)
  obtain r w1 where y: "resolveFile L y w = (r, w1)" by (cases "resolveFile L y w")
  have "fsys w1 a = Some (File c)" by (rule resolveFile_keeps [OF y Cons.prems])
  from Cons.IH [OF this] y show ?case
    by (auto split: prod.splits sum.splits)
qed

lemma remdups_later:
  "a \<in> set ys \<Longrightarrow> remdups (xs @ a # ys) = remdups (xs @ ys)"
  by (induction xs) auto

lemma firstOccurrences_again:
  "a \<in> set us \<Longrightarrow> firstOccurrences (us @ a # vs) = firstOccurrences (us @ vs)"
  by (simp add: firstOccurrences_def remdups_later)

lemma resolveAll_twice:
  assumes "\<not> isRemote a"
  shows "(case resolveAll L (xs @ a # ys @ a # zs) w of
            (Inl err, w') \<Rightarrow> (Inl err, w')
          | (Inr ps, w') \<Rightarrow> (Inr (firstOccurrences ps), w'))
       = (case resolveAll L (xs @ a # ys @ zs) w of
            (Inl err, w') \<Rightarrow> (Inl err, w')
          | (Inr ps, w') \<Rightarrow> (Inr (firstOccurrences ps), w'))"
proof (cases "resolveAll L xs w")
  case (Pair rx w1)
  show ?thesis
  proof (cases rx)
    case (Inl e)
    with Pair show ?thesis by (simp add: resolveAll_append)
  next
    case (Inr pxs)
    show ?thesis
    proof (cases "fsys w1 a")
      case None
      with Pair Inr assms show ?thesis
        by (simp add: resolveAll_append resolveFile_local)
    next
      case (Some en)
      show ?thesis
      proof (cases en)
        case Dir
        with Some Pair Inr assms show ?thesis
          by (simp add: resolveAll_append resolveFile_local)
      next
        case (File c)
        with Some have f: "fsys w1 a = Some (File c)" by simp
        have first: "\<And>rest. resolveAll L (a # rest) w1 =
            (case resolveAll L rest w1 of
               (Inl err, w2) \<Rightarrow> (Inl err, w2)
             | (Inr ps, w2) \<Rightarrow> (Inr (a # ps), w2))"
          using assms f by (simp add: resolveFile_local)
        have dup: "\<And>ps. firstOccurrences
                       (pxs @ a # take (length ys) ps @ a # drop (length ys) ps)
                     = firstOccurrences (pxs @ a # ps)"
        proof -
          fix ps :: "string list"
          have "firstOccurrences ((pxs @ a # take (length ys) ps) @ a # drop (length ys) ps)
                  = firstOccurrences ((pxs @ a # take (length ys) ps) @ drop (length ys) ps)"
            by (rule firstOccurrences_again) simp
          then show "firstOccurrences
                       (pxs @ a # take (length ys) ps @ a # drop (length ys) ps)
                     = firstOccurrences (pxs @ a # ps)"
            by simp
        qed
        have A: "\<And>R. resolveAll L (xs @ a # R) w =
            (case resolveAll L R w1 of
               (Inl err, w2) \<Rightarrow> (Inl err, w2)
             | (Inr ps, w2) \<Rightarrow> (Inr (pxs @ a # ps), w2))"
          using Pair Inr
          by (simp add: resolveAll_append [of L xs] first del: resolveAll.simps
                   split: prod.splits sum.splits)
        obtain r w2 where R: "resolveAll L (ys @ zs) w1 = (r, w2)"
          by (cases "resolveAll L (ys @ zs) w1")
        show ?thesis
        proof (cases r)
          case (Inl e)
          with R show ?thesis
            by (simp add: A resolveAll_local_again [OF assms f])
        next
          case (Inr ps)
          with R dup [of ps] show ?thesis
            by (simp add: A resolveAll_local_again [OF assms f])
        qed
      qed
    qed
  qed
qed

lemma repeated_local_parts:
  assumes "\<not> isRemote a"
  shows "processFileArgs L (xs @ a # ys @ a # zs) w = processFileArgs L (xs @ a # ys @ zs) w"
    and "processFileArgs L (xs @ a # ys @ a # zs) w = (Inr files, w')
           \<Longrightarrow> length (filter (\<lambda>f. FilePath f = a) files) = 1"
proof -
  have map_case: "\<And>X. (case X of
            (Inl err, w') \<Rightarrow> (Inl err, w')
          | (Inr ps, w') \<Rightarrow> (Inr (map routeOf (firstOccurrences ps)), w'))
       = (case (case X of (Inl err, w') \<Rightarrow> (Inl err, w')
                 | (Inr ps, w') \<Rightarrow> (Inr (firstOccurrences ps), w')) of
            (Inl err, w') \<Rightarrow> (Inl err, w')
          | (Inr qs, w') \<Rightarrow> (Inr (map routeOf qs), w'))"
    by (auto split: prod.splits sum.splits)
  show "processFileArgs L (xs @ a # ys @ a # zs) w = processFileArgs L (xs @ a # ys @ zs) w"
    unfolding processFileArgs_resolveAll
    by (subst (1 2) map_case) (simp only: resolveAll_twice [OF assms])
next
  assume r: "processFileArgs L (xs @ a # ys @ a # zs) w = (Inr files, w')"
  from processFileArgs_paths [OF r] obtain paths
    where p: "resolveAll L (xs @ a # ys @ a # zs) w = (Inr paths, w')"
      and d: "distinct (map FilePath files)" and s: "set (map FilePath files) = set paths"
    by blast
  have "a \<in> set paths"
  proof -
    obtain rx w1 where x: "resolveAll L xs w = (rx, w1)" by (cases "resolveAll L xs w")
    with p obtain pxs where rx: "rx = Inr pxs"
      by (cases rx) (auto simp: resolveAll_append)
    obtain ra w2 where ra: "resolveFile L a w1 = (ra, w2)" by (cases "resolveFile L a w1")
    with p x rx assms obtain rest where "paths = pxs @ a # rest"
      by (auto simp: resolveAll_append resolveFile_local
               split: prod.splits sum.splits option.splits entry.splits)
    then show ?thesis by simp
  qed
  with s have "a \<in> set (map FilePath files)" by simp
  with d show "length (filter (\<lambda>f. FilePath f = a) files) = 1"
  proof (induction files)
    case Nil
    then show ?case by simp
  next
    case (Cons f files)
    show ?case
    proof (cases "FilePath f = a")
      case True
      with Cons.prems have "a \<notin> FilePath ` set files" by auto
      then have "filter (\<lambda>f. FilePath f = a) files = []"
        by (auto simp: filter_empty_conv)
      with True show ?thesis by simp
    next
      case False
      with Cons show ?thesis by simp
    qed
  qed
qed

subsection \<open>Base names\<close>

lemma lastElement_append:
  assumes "\<forall>c \<in> set name. \<not> isPathSeparator c" and "d = [] \<or> isPathSeparator (last d)"
  shows "lastElement (d @ name) = name"
proof -
  have "takeWhile (\<lambda>c. \<not> isPathSeparator c) (rev name @ rev d) = rev name"
  proof (cases d rule: rev_cases)
    case Nil
    with assms(1) show ?thesis by (simp add: takeWhile_eq_all_conv)
  next
    case (snoc d' c)
    have "takeWhile (\<lambda>c. \<not> isPathSeparator c) (rev name @ c # rev d')
            = rev name @ takeWhile (\<lambda>c. \<not> isPathSeparator c) (c # rev d')"
      by (rule takeWhile_append2) (use assms(1) in auto)
    with snoc assms(2) show ?thesis by simp
  qed
  then show ?thesis by (simp add: lastElement_def)
qed

lemma stripTrailing_id: "p \<noteq> [] \<Longrightarrow> \<not> isPathSeparator (last p) \<Longrightarrow> stripTrailing p = p"
  by (cases p rule: rev_cases) (simp_all add: stripTrailing_def)

lemma Base_append:
  assumes "name \<noteq> []" and "\<forall>c \<in> set name. \<not> isPathSeparator c"
    and "d = [] \<or> isPathSeparator (last d)"
  shows "Base (d @ name) = name"
proof -
  from assms(1,2) have "\<not> isPathSeparator (last (d @ name))" by simp
  with assms(1) have "stripTrailing (d @ name) = d @ name" by (simp add: stripTrailing_id)
  with assms show ?thesis by (simp add: Base_def lastElement_append)
qed

lemma Split_parts: "fst (Split p) @ snd (Split p) = p"
proof -
  have "rev (dropWhile (\<lambda>c. \<not> isPathSeparator c) (rev p))
          @ rev (takeWhile (\<lambda>c. \<not> isPathSeparator c) (rev p))
        = rev (takeWhile (\<lambda>c. \<not> isPathSeparator c) (rev p)
               @ dropWhile (\<lambda>c. \<not> isPathSeparator c) (rev p))"
    by (simp only: rev_append)
  also have "\<dots> = p"
    by (simp only: takeWhile_dropWhile_id rev_rev_ident)
  finally show ?thesis by (simp add: Split_def lastElement_def)
qed

lemma lastElement_no_separator: "\<forall>c \<in> set (lastElement p). \<not> isPathSeparator c"
  by (auto simp: lastElement_def dest: set_takeWhileD)

lemma Split_dir_ends: "fst (Split p) = [] \<or> isPathSeparator (last (fst (Split p)))"
proof (cases "dropWhile (\<lambda>c. \<not> isPathSeparator c) (rev p)")
  case Nil
  then show ?thesis by (simp add: Split_def)
next
  case (Cons c cs)
  then have "isPathSeparator c" using hd_dropWhile [of "\<lambda>c. \<not> isPathSeparator c" "rev p"]
    by simp
  with Cons show ?thesis by (simp add: Split_def)
qed

lemma lastElement_nonempty: "p \<noteq> [] \<Longrightarrow> \<not> isPathSeparator (last p) \<Longrightarrow> lastElement p \<noteq> []"
  by (cases p rule: rev_cases) (simp_all add: lastElement_def)

lemma Base_is_lastElement:
  "p \<noteq> [] \<Longrightarrow> \<not> isPathSeparator (last p) \<Longrightarrow> Base p = lastElement p"
  by (simp add: Base_def stripTrailing_id lastElement_nonempty)

text \<open>
  For a path that is not empty and does not end in a separator, \<open>Base\<close> is the final
  segment: the path is a directory part, empty or ending in a separator, followed by
  \<open>Base\<close>, which has no separator in it.
\<close>

lemma Base_final_segment:
  assumes "p \<noteq> []" and "\<not> isPathSeparator (last p)"
  shows "\<exists>dir. p = dir @ Base p \<and> (dir = [] \<or> isPathSeparator (last dir))
           \<and> Base p \<noteq> [] \<and> (\<forall>c \<in> set (Base p). \<not> isPathSeparator c)"
proof -
  have b: "Base p = snd (Split p)"
    using assms by (simp add: Base_is_lastElement Split_def)
  show ?thesis
    using Split_parts [of p] Split_dir_ends [of p] lastElement_no_separator [of p]
          lastElement_nonempty [OF assms]
    unfolding b by (intro exI [of _ "fst (Split p)"]) (simp add: Split_def)
qed

lemma Uitoa_digits: "Uitoa n \<noteq> [] \<and> set (Uitoa n) \<subseteq> set ''0123456789''"
proof (induction n rule: Uitoa.induct)
  case (1 n)
  have digit: "\<And>k. k < 10 \<Longrightarrow> ''0123456789'' ! k \<in> set ''0123456789''"
    by (rule nth_mem) simp
  show ?case
  proof (cases "n < 10")
    case True
    with digit [of n] show ?thesis by (subst (1 2) Uitoa.simps) simp
  next
    case False
    have "n mod 10 < 10" by simp
    from digit [OF this] "1.IH" [OF False] False show ?thesis
      by (subst (1 2) Uitoa.simps) simp
  qed
qed

lemma Uitoa_no_separator: "\<forall>c \<in> set (Uitoa n). \<not> isPathSeparator c"
  using Uitoa_digits [of n] by (auto simp: isPathSeparator_def)

lemma prefixAndSuffix_mok:
  "prefixAndSuffix (''mok-'' @ host @ ''.*.json'') = (''mok-'' @ host @ ''.'', ''.json'')"
  by (simp add: prefixAndSuffix_def)

lemma tempName_mok:
  "tempName w (''mok-'' @ host @ ''.*.json'') n
     = joinPath (tmpDir w) (''mok-'' @ host @ ''.'' @ Uitoa n @ ''.json'')"
  using prefixAndSuffix_mok [of host] by (simp add: tempName_def)

lemma Base_joinPath:
  assumes "name \<noteq> []" and "\<forall>c \<in> set name. \<not> isPathSeparator c"
  shows "Base (joinPath dir name) = name"
proof (cases "dir \<noteq> [] \<and> isPathSeparator (last dir)")
  case True
  with Base_append [OF assms, of dir] show ?thesis by (simp add: joinPath_def)
next
  case False
  have "Base ((dir @ ''/'') @ name) = name"
    by (rule Base_append [OF assms]) (simp add: isPathSeparator_def)
  with False show ?thesis by (auto simp: joinPath_def)
qed

lemma Base_temp:
  assumes "\<not> (\<exists>c \<in> set host. isPathSeparator c)"
  shows "Base (joinPath dir (''mok-'' @ host @ ''.'' @ Uitoa n @ ''.json''))
           = ''mok-'' @ host @ ''.'' @ Uitoa n @ ''.json''"
  by (rule Base_joinPath) (use assms Uitoa_no_separator [of n] in \<open>auto simp: isPathSeparator_def\<close>)

subsection \<open>The path an argument resolves to\<close>

lemma downloadJSON_tmpDir:
  assumes "downloadJSON L u w = (res, w')"
  shows "tmpDir w' = tmpDir w" and "network w' = network w"
proof -
  have "tmpDir w' = tmpDir w \<and> network w' = network w"
    using assms
    by (auto simp: downloadJSON_def Let_def CreateTemp_def httpGet_def ioCopy_def logInfo_def
             split: sum.splits prod.splits if_splits list.splits option.splits)
  then show "tmpDir w' = tmpDir w" and "network w' = network w" by simp_all
qed

lemma resolveFile_tmpDir:
  assumes "resolveFile L arg w = (res, w')"
  shows "tmpDir w' = tmpDir w"
proof (cases "isRemote arg")
  case True
  obtain r1 w1 where d: "downloadJSON L arg w = (r1, w1)" by (cases "downloadJSON L arg w")
  from assms True d have "w' = w1"
    by (auto simp: resolveFile_remote split: sum.splits)
  with downloadJSON_tmpDir(1) [OF d] show ?thesis by simp
next
  case False
  with assms show ?thesis
    by (auto simp: resolveFile_local split: option.splits entry.splits)
qed

lemma resolvesTo_iff:
  "resolvesTo L dir arg p =
     (if isRemote arg
      then \<exists>host n. urlHost L arg = Inr host \<and> \<not> (\<exists>c \<in> set host. isPathSeparator c)
             \<and> p = joinPath dir (''mok-'' @ host @ ''.'' @ Uitoa n @ ''.json'')
      else p = arg)"
  by (auto simp: resolvesTo.simps)

lemma resolveFile_resolvesTo:
  assumes "resolveFile L arg w = (Inr p, w')"
  shows "resolvesTo L (tmpDir w) arg p"
proof (cases "isRemote arg")
  case True
  obtain r1 w1 where d: "downloadJSON L arg w = (r1, w1)" by (cases "downloadJSON L arg w")
  from assms True d have r1: "r1 = Inr p"
    by (auto simp: resolveFile_remote split: sum.splits)
  from d [unfolded r1] show ?thesis
  proof (cases rule: downloadJSON_cases)
    case (ok host n resp)
    from ok(6) tempName_mok [of w host n]
    have "p = joinPath (tmpDir w) (''mok-'' @ host @ ''.'' @ Uitoa n @ ''.json'')" by simp
    with ok(1,7) True show ?thesis unfolding resolvesTo_iff by auto
  qed simp_all
next
  case False
  with assms show ?thesis
    by (auto simp: resolvesTo_iff resolveFile_local split: option.splits entry.splits)
qed

lemma resolveAll_resolvesTo:
  "resolveAll L args w = (Inr ps, w') \<Longrightarrow>
   \<forall>arg \<in> set args. \<exists>p \<in> set ps. resolvesTo L (tmpDir w) arg p"
proof (induction args arbitrary: w ps)
  case Nil
  then show ?case by simp
next
  case (Cons a args)
  from Cons.prems obtain p w1 qs
    where a: "resolveFile L a w = (Inr p, w1)"
      and r: "resolveAll L args w1 = (Inr qs, w')" and ps: "ps = p # qs"
    by (auto split: prod.splits sum.splits)
  from Cons.IH [OF r] resolveFile_tmpDir [OF a] resolveFile_resolvesTo [OF a] ps
  show ?case by auto
qed

lemma set_routes:
  assumes "processFileArgs L args w = (Inr files, w')"
  obtains paths where "resolveAll L args w = (Inr paths, w')" and "set files = routeOf ` set paths"
proof -
  from processFileArgs_paths [OF assms] obtain paths
    where p: "resolveAll L args w = (Inr paths, w')"
      and f: "files = map routeOf (firstOccurrences paths)"
    by blast
  from f have "set files = routeOf ` set paths" by (simp add: set_firstOccurrences)
  with p show ?thesis by (rule that)
qed

text \<open>
  C8. The URL path of every route is \<^verbatim>\<open>/\<close> followed by the base name of its source
  path. A local argument is its own source path; a remote argument has a temporary file
  as source path, and its URL path is made of the name of that file (the host of the URL
  and a number), not of the path of the URL.
\<close>

theorem route_urlPath:
  assumes "processFileArgs L args w = (Inr files, w')"
  shows "(\<forall>f \<in> set files. URLPath f = ''/'' @ Base (FilePath f))
       \<and> (\<forall>arg \<in> set args. \<not> isRemote arg \<longrightarrow>
             \<lparr>FilePath = arg, URLPath = ''/'' @ Base arg\<rparr> \<in> set files)
       \<and> (\<forall>arg \<in> set args. isRemote arg \<longrightarrow>
             (\<exists>host n. urlHost L arg = Inr host
                \<and> \<lparr>FilePath = joinPath (tmpDir w) (''mok-'' @ host @ ''.'' @ Uitoa n @ ''.json''),
                    URLPath = ''/'' @ ''mok-'' @ host @ ''.'' @ Uitoa n @ ''.json''\<rparr> \<in> set files))"
proof -
  from assms obtain paths
    where p: "resolveAll L args w = (Inr paths, w')" and s: "set files = routeOf ` set paths"
    by (rule set_routes)
  note r = resolveAll_resolvesTo [OF p]
  have one: "\<forall>f \<in> set files. URLPath f = ''/'' @ Base (FilePath f)"
    using s by auto
  have two: "\<forall>arg \<in> set args. \<not> isRemote arg \<longrightarrow>
               \<lparr>FilePath = arg, URLPath = ''/'' @ Base arg\<rparr> \<in> set files"
  proof (intro ballI impI)
    fix arg assume "arg \<in> set args" and "\<not> isRemote arg"
    with r have "arg \<in> set paths" by (auto simp: resolvesTo_iff)
    then have "routeOf arg \<in> set files" using s by simp
    then show "\<lparr>FilePath = arg, URLPath = ''/'' @ Base arg\<rparr> \<in> set files"
      by (simp add: routeOf_def)
  qed
  have three: "\<forall>arg \<in> set args. isRemote arg \<longrightarrow>
             (\<exists>host n. urlHost L arg = Inr host
                \<and> \<lparr>FilePath = joinPath (tmpDir w) (''mok-'' @ host @ ''.'' @ Uitoa n @ ''.json''),
                    URLPath = ''/'' @ ''mok-'' @ host @ ''.'' @ Uitoa n @ ''.json''\<rparr> \<in> set files)"
  proof (intro ballI impI)
    fix arg assume "arg \<in> set args" and "isRemote arg"
    with r obtain q host n where q: "q \<in> set paths" and h: "urlHost L arg = Inr host"
      and nosep: "\<not> (\<exists>c \<in> set host. isPathSeparator c)"
      and qq: "q = joinPath (tmpDir w) (''mok-'' @ host @ ''.'' @ Uitoa n @ ''.json'')"
      unfolding resolvesTo_iff by fastforce
    from q s have "routeOf q \<in> set files" by simp
    moreover have "Base q = ''mok-'' @ host @ ''.'' @ Uitoa n @ ''.json''"
      unfolding qq by (rule Base_temp [OF nosep])
    ultimately have "\<lparr>FilePath = joinPath (tmpDir w) (''mok-'' @ host @ ''.'' @ Uitoa n @ ''.json''),
                    URLPath = ''/'' @ ''mok-'' @ host @ ''.'' @ Uitoa n @ ''.json''\<rparr> \<in> set files"
      using qq by (simp add: routeOf_def)
    with h show "\<exists>host n. urlHost L arg = Inr host
                \<and> \<lparr>FilePath = joinPath (tmpDir w) (''mok-'' @ host @ ''.'' @ Uitoa n @ ''.json''),
                    URLPath = ''/'' @ ''mok-'' @ host @ ''.'' @ Uitoa n @ ''.json''\<rparr> \<in> set files"
      by blast
  qed
  from one two three show ?thesis by blast
qed

lemma world1_mixed_args:
  "fst (processFileArgs plainLib [''d/b.json'', ''http://h/x/data.json''] world1)
     = Inr [\<lparr>FilePath = ''d/b.json'', URLPath = ''/b.json''\<rparr>,
            \<lparr>FilePath = ''/tmp/mok-h.7.json'', URLPath = ''/mok-h.7.json''\<rparr>]"
  by code_simp

theorem route_urlPath_witness:
  "\<lparr>FilePath = ''d/b.json'', URLPath = ''/'' @ Base ''d/b.json''\<rparr>
        \<in> set [\<lparr>FilePath = ''d/b.json'', URLPath = ''/b.json''\<rparr>,
                \<lparr>FilePath = ''/tmp/mok-h.7.json'', URLPath = ''/mok-h.7.json''\<rparr>]
   \<and> (\<exists>host n. urlHost plainLib ''http://h/x/data.json'' = Inr host
         \<and> \<lparr>FilePath = joinPath (tmpDir world1) (''mok-'' @ host @ ''.'' @ Uitoa n @ ''.json''),
             URLPath = ''/'' @ ''mok-'' @ host @ ''.'' @ Uitoa n @ ''.json''\<rparr>
            \<in> set [\<lparr>FilePath = ''d/b.json'', URLPath = ''/b.json''\<rparr>,
                    \<lparr>FilePath = ''/tmp/mok-h.7.json'', URLPath = ''/mok-h.7.json''\<rparr>])"
proof -
  have run: "processFileArgs plainLib [''d/b.json'', ''http://h/x/data.json''] world1
     = (Inr [\<lparr>FilePath = ''d/b.json'', URLPath = ''/b.json''\<rparr>,
             \<lparr>FilePath = ''/tmp/mok-h.7.json'', URLPath = ''/mok-h.7.json''\<rparr>],
        snd (processFileArgs plainLib [''d/b.json'', ''http://h/x/data.json''] world1))"
    using world1_mixed_args by (simp add: prod_eq_iff)
  have local: "\<not> isRemote ''d/b.json''" and remote: "isRemote ''http://h/x/data.json''"
    by (simp_all add: isRemote_def HasPrefix_def)
  from route_urlPath [OF run] local remote show ?thesis by simp
qed

subsection \<open>Remote arguments\<close>

lemma processFileArgs_fails_at:
  assumes "resolveAll L pre w0 = (Inr ps, w)" and "resolveFile L arg w = (Inl err, w')"
  shows "processFileArgs L (pre @ arg # rest) w0 = (Inl err, w')"
  using assms by (simp add: processFileArgs_resolveAll resolveAll_append)

lemma processFileArgs_route_at:
  assumes "resolveAll L pre w0 = (Inr ps, w)" and "resolveFile L arg w = (Inr p, w')"
    and "processFileArgs L (pre @ arg # rest) w0 = (Inr files, w2)"
  shows "routeOf p \<in> set files"
proof -
  from assms(3) obtain paths
    where r: "resolveAll L (pre @ arg # rest) w0 = (Inr paths, w2)"
      and s: "set files = routeOf ` set paths"
    by (rule set_routes)
  from r assms(1,2) have "p \<in> set paths"
    by (auto simp: resolveAll_append split: prod.splits sum.splits)
  with s show ?thesis by simp
qed

lemma main_exits_at:
  assumes "getDirectInput sin (jsonStrFlag fl) = Inr di"
    and "argsFlag fl = pre @ arg # rest"
    and "resolveAll L pre w0 = (Inr ps, w)" and "resolveFile L arg w = (Inl err, w')"
  shows "main L sin fl w0 = \<lparr>process = Exited err, stdout = [], finalWorld = w'\<rparr>"
  using assms(1,2) processFileArgs_fails_at [OF assms(3,4), of rest]
  by (simp add: main_def)

lemma remote_outcomes:
  assumes "isRemote arg" and "resolveFile L arg w = (res, w')"
  shows "\<forall>e. urlHost L arg = Inl e \<longrightarrow>
           res = Inl (DownloadingRemote (ParseURL e)) \<and> requests w' = requests w"
    and "\<forall>e. network w arg = Inl e \<longrightarrow> (\<exists>err. res = Inl err)"
    and "\<forall>resp. network w arg = Inr resp \<and> ContentType resp \<noteq> ''application/json''
           \<longrightarrow> (\<exists>err. res = Inl err)"
    and "\<forall>resp. network w arg = Inr resp \<and> StatusCode resp \<noteq> 200 \<longrightarrow> (\<exists>err. res = Inl err)"
    and "requests w' = requests w \<or> requests w' = requests w @ [arg]"
    and "\<forall>p. res = Inr p \<longrightarrow>
           (\<exists>resp. network w arg = Inr resp \<and> ContentType resp = ''application/json''
              \<and> StatusCode resp = 200 \<and> fsys w p = None
              \<and> fsys w' p = Some (File (Body resp)) \<and> requests w' = requests w @ [arg])"
proof -
  obtain r1 w1 where d: "downloadJSON L arg w = (r1, w1)" by (cases "downloadJSON L arg w")
  from assms d have w': "w' = w1"
    and res: "res = (case r1 of Inl err \<Rightarrow> Inl (DownloadingRemote err) | Inr file \<Rightarrow> Inr file)"
    by (auto simp: resolveFile_remote split: sum.splits)
  from d have "(\<forall>e. urlHost L arg = Inl e \<longrightarrow>
           res = Inl (DownloadingRemote (ParseURL e)) \<and> requests w' = requests w)
    \<and> (\<forall>e. network w arg = Inl e \<longrightarrow> (\<exists>err. res = Inl err))
    \<and> (\<forall>resp. network w arg = Inr resp \<and> ContentType resp \<noteq> ''application/json''
           \<longrightarrow> (\<exists>err. res = Inl err))
    \<and> (\<forall>resp. network w arg = Inr resp \<and> StatusCode resp \<noteq> 200 \<longrightarrow> (\<exists>err. res = Inl err))
    \<and> (requests w' = requests w \<or> requests w' = requests w @ [arg])
    \<and> (\<forall>p. res = Inr p \<longrightarrow>
           (\<exists>resp. network w arg = Inr resp \<and> ContentType resp = ''application/json''
              \<and> StatusCode resp = 200 \<and> fsys w p = None
              \<and> fsys w' p = Some (File (Body resp)) \<and> requests w' = requests w @ [arg]))"
    by (cases rule: downloadJSON_cases) (simp_all add: w' res)
  then show "\<forall>e. urlHost L arg = Inl e \<longrightarrow>
           res = Inl (DownloadingRemote (ParseURL e)) \<and> requests w' = requests w"
    and "\<forall>e. network w arg = Inl e \<longrightarrow> (\<exists>err. res = Inl err)"
    and "\<forall>resp. network w arg = Inr resp \<and> ContentType resp \<noteq> ''application/json''
           \<longrightarrow> (\<exists>err. res = Inl err)"
    and "\<forall>resp. network w arg = Inr resp \<and> StatusCode resp \<noteq> 200 \<longrightarrow> (\<exists>err. res = Inl err)"
    and "requests w' = requests w \<or> requests w' = requests w @ [arg]"
    and "\<forall>p. res = Inr p \<longrightarrow>
           (\<exists>resp. network w arg = Inr resp \<and> ContentType resp = ''application/json''
              \<and> StatusCode resp = 200 \<and> fsys w p = None
              \<and> fsys w' p = Some (File (Body resp)) \<and> requests w' = requests w @ [arg])"
    by blast+
qed

text \<open>
  C6. An argument that starts with \<^verbatim>\<open>http://\<close> or \<^verbatim>\<open>https://\<close> is resolved in the world
  \<open>w\<close> that the arguments before it have left. The resolution fails when the URL does
  not parse (then no request is sent), when the request fails, when the content type is
  not exactly \<^verbatim>\<open>application/json\<close>, and when the status is not 200. A failed resolution
  ends the program: \<open>main\<close> is \<open>Exited\<close> with that error, in the world the failed
  resolution left, so nothing is tried again and no later argument is looked at. In every
  case at most one GET is sent. A resolution that succeeds has sent exactly one GET, and
  its path is a file that did not exist before, now holds the body of the response, and is
  the source path of a route.
\<close>

theorem remote_argument:
  assumes "isRemote arg"
    and "getDirectInput sin (jsonStrFlag fl) = Inr di"
    and "argsFlag fl = pre @ arg # rest"
    and "resolveAll L pre w0 = (Inr ps, w)"
    and "resolveFile L arg w = (res, w')"
  shows "(\<forall>e. urlHost L arg = Inl e \<longrightarrow>
            res = Inl (DownloadingRemote (ParseURL e)) \<and> requests w' = requests w)
       \<and> (\<forall>e. network w arg = Inl e \<longrightarrow> (\<exists>err. res = Inl err))
       \<and> (\<forall>resp. network w arg = Inr resp \<and> ContentType resp \<noteq> ''application/json''
            \<longrightarrow> (\<exists>err. res = Inl err))
       \<and> (\<forall>resp. network w arg = Inr resp \<and> StatusCode resp \<noteq> 200 \<longrightarrow> (\<exists>err. res = Inl err))
       \<and> (\<forall>err. res = Inl err \<longrightarrow>
            main L sin fl w0 = \<lparr>process = Exited err, stdout = [], finalWorld = w'\<rparr>)
       \<and> (requests w' = requests w \<or> requests w' = requests w @ [arg])
       \<and> (\<forall>p. res = Inr p \<longrightarrow>
            (\<exists>resp. network w arg = Inr resp \<and> ContentType resp = ''application/json''
               \<and> StatusCode resp = 200 \<and> fsys w p = None
               \<and> fsys w' p = Some (File (Body resp)) \<and> requests w' = requests w @ [arg])
            \<and> (\<forall>files w2. processFileArgs L (argsFlag fl) w0 = (Inr files, w2)
                  \<longrightarrow> \<lparr>FilePath = p, URLPath = ''/'' @ Base p\<rparr> \<in> set files))"
proof -
  note o = remote_outcomes [OF assms(1,5)]
  have exits: "\<forall>err. res = Inl err \<longrightarrow>
            main L sin fl w0 = \<lparr>process = Exited err, stdout = [], finalWorld = w'\<rparr>"
    using main_exits_at [OF assms(2,3,4)] assms(5) by blast
  have route: "\<forall>p. res = Inr p \<longrightarrow>
      (\<forall>files w2. processFileArgs L (argsFlag fl) w0 = (Inr files, w2)
                  \<longrightarrow> \<lparr>FilePath = p, URLPath = ''/'' @ Base p\<rparr> \<in> set files)"
  proof (intro allI impI)
    fix p files w2
    assume "res = Inr p" and "processFileArgs L (argsFlag fl) w0 = (Inr files, w2)"
    with assms(3,5) have "resolveFile L arg w = (Inr p, w')"
      and "processFileArgs L (pre @ arg # rest) w0 = (Inr files, w2)" by simp_all
    from processFileArgs_route_at [OF assms(4) this]
    show "\<lparr>FilePath = p, URLPath = ''/'' @ Base p\<rparr> \<in> set files"
      by (simp add: routeOf_def)
  qed
  from o exits route show ?thesis by blast
qed

lemma world0_download:
  "fst (resolveFile plainLib ''http://h/x'' world0) = Inr ''/tmp/mok-h.7.json''"
  by code_simp

lemma world0_refused:
  "fst (resolveFile plainLib ''http://other/y'' world0) = Inl (DownloadingRemote (Download ''no route to host''))"
  by code_simp

theorem remote_argument_witness:
  "fsys (snd (resolveFile plainLib ''http://h/x'' world0)) ''/tmp/mok-h.7.json'' = Some (File ''{}'')
   \<and> requests (snd (resolveFile plainLib ''http://h/x'' world0)) = [''http://h/x'']
   \<and> main plainLib \<lparr>stdinStat = Inr 0, stdinRead = (\<lambda>n. Inr [])\<rparr>
        \<lparr>portFlag = 9172, jsonStrFlag = [], argsFlag = [''a.json'', ''http://other/y'', ''d'']\<rparr> world0
      = \<lparr>process = Exited (DownloadingRemote (Download ''no route to host'')), stdout = [],
         finalWorld = snd (resolveFile plainLib ''http://other/y'' world0)\<rparr>"
proof -
  let ?sin = "\<lparr>stdinStat = Inr 0, stdinRead = (\<lambda>n. Inr [])\<rparr>"
  let ?fl = "\<lparr>portFlag = 9172, jsonStrFlag = [], argsFlag = [''a.json'', ''http://other/y'', ''d'']\<rparr>"
  have remote: "isRemote ''http://h/x''" "isRemote ''http://other/y''"
    by (simp_all add: isRemote_def HasPrefix_def)
  have di: "getDirectInput ?sin (jsonStrFlag ?fl) = Inr []"
    by (simp add: getDirectInput_def)
  have ok: "resolveFile plainLib ''http://h/x'' world0
              = (Inr ''/tmp/mok-h.7.json'', snd (resolveFile plainLib ''http://h/x'' world0))"
    using world0_download by (simp add: prod_eq_iff)
  have bad: "resolveFile plainLib ''http://other/y'' world0
              = (Inl (DownloadingRemote (Download ''no route to host'')),
                 snd (resolveFile plainLib ''http://other/y'' world0))"
    using world0_refused by (simp add: prod_eq_iff)
  have pre0: "resolveAll plainLib [] world0 = (Inr [], world0)" by simp
  have pre1: "resolveAll plainLib [''a.json''] world0 = (Inr [''a.json''], world0)"
    by (simp add: resolveFile_def isRemote_def HasPrefix_def world0_def)
  have args0: "argsFlag \<lparr>portFlag = 9172, jsonStrFlag = [], argsFlag = [''http://h/x'']\<rparr>
                 = [] @ ''http://h/x'' # []" by simp
  have args1: "argsFlag ?fl = [''a.json''] @ ''http://other/y'' # [''d'']" by simp
  have net: "network world0 ''http://h/x'' = Inr jsonOK" by (simp add: world0_def)
  have req: "requests world0 = []" by (simp add: world0_def)
  from remote_argument [OF remote(1) _ args0 pre0 ok, of ?sin "[]"] net req
  have "fsys (snd (resolveFile plainLib ''http://h/x'' world0)) ''/tmp/mok-h.7.json'' = Some (File ''{}'')
   \<and> requests (snd (resolveFile plainLib ''http://h/x'' world0)) = [''http://h/x'']"
    by (simp add: getDirectInput_def jsonOK_def)
  moreover from remote_argument [OF remote(2) di args1 pre1 bad]
  have "main plainLib ?sin ?fl world0
      = \<lparr>process = Exited (DownloadingRemote (Download ''no route to host'')), stdout = [],
         finalWorld = snd (resolveFile plainLib ''http://other/y'' world0)\<rparr>"
    by blast
  ultimately show ?thesis by blast
qed

subsection \<open>Repeated arguments\<close>

lemma resolveAll_keeps:
  "resolveAll L args w = (res, w') \<Longrightarrow> fsys w p = Some e \<Longrightarrow> fsys w' p = Some e"
proof (induction args arbitrary: w res w')
  case Nil
  then show ?case by simp
next
  case (Cons a args)
  obtain r w1 where a: "resolveFile L a w = (r, w1)" by (cases "resolveFile L a w")
  note k = resolveFile_keeps [OF a Cons.prems(2)]
  show ?case
  proof (cases r)
    case (Inl err)
    with a Cons.prems(1) k show ?thesis by simp
  next
    case (Inr q)
    obtain r2 w2 where rest: "resolveAll L args w1 = (r2, w2)"
      by (cases "resolveAll L args w1")
    from Cons.IH [OF rest k] a Inr rest Cons.prems(1) show ?thesis
      by (auto split: sum.splits)
  qed
qed

lemma resolveAll_tmpDir:
  "resolveAll L args w = (res, w') \<Longrightarrow> tmpDir w' = tmpDir w"
proof (induction args arbitrary: w res w')
  case Nil
  then show ?case by simp
next
  case (Cons a args)
  obtain r w1 where a: "resolveFile L a w = (r, w1)" by (cases "resolveFile L a w")
  note k = resolveFile_tmpDir [OF a]
  show ?case
  proof (cases r)
    case (Inl err)
    with a Cons.prems k show ?thesis by simp
  next
    case (Inr q)
    obtain r2 w2 where rest: "resolveAll L args w1 = (r2, w2)"
      by (cases "resolveAll L args w1")
    from Cons.IH [OF rest] k a Inr rest Cons.prems show ?thesis
      by (auto split: sum.splits)
  qed
qed

lemma repeated_remote_parts:
  assumes "isRemote a"
    and "processFileArgs L (xs @ a # ys @ a # zs) w = (Inr files, w')"
  shows "\<exists>p q. p \<noteq> q \<and> resolvesTo L (tmpDir w) a p \<and> resolvesTo L (tmpDir w) a q
           \<and> routeOf p \<in> set files \<and> routeOf q \<in> set files"
proof -
  from assms(2) obtain paths
    where r: "resolveAll L (xs @ a # ys @ a # zs) w = (Inr paths, w')"
      and s: "set files = routeOf ` set paths"
    by (rule set_routes)
  obtain rx w1 where x: "resolveAll L xs w = (rx, w1)" by (cases "resolveAll L xs w")
  obtain ra w2 where a1: "resolveFile L a w1 = (ra, w2)" by (cases "resolveFile L a w1")
  obtain ry w3 where y: "resolveAll L ys w2 = (ry, w3)" by (cases "resolveAll L ys w2")
  obtain rb w4 where a2: "resolveFile L a w3 = (rb, w4)" by (cases "resolveFile L a w3")
  from r x a1 obtain pxs p where rx: "rx = Inr pxs" and ra: "ra = Inr p"
    by (cases rx; cases ra) (auto simp: resolveAll_append split: prod.splits sum.splits)
  from r x a1 rx ra y a2 obtain pys q where ry: "ry = Inr pys" and rb: "rb = Inr q"
    by (cases ry; cases rb) (auto simp: resolveAll_append split: prod.splits sum.splits)
  from r x a1 rx ra y a2 ry rb have "p \<in> set paths" and "q \<in> set paths"
    by (auto simp: resolveAll_append split: prod.splits sum.splits)
  with s have routes: "routeOf p \<in> set files" "routeOf q \<in> set files" by simp_all
  from remote_outcomes(6) [OF assms(1) a1] ra obtain body
    where "fsys w2 p = Some (File body)" by auto
  from resolveAll_keeps [OF y this] have "fsys w3 p \<noteq> None" by simp
  moreover from remote_outcomes(6) [OF assms(1) a2] rb have "fsys w3 q = None" by auto
  ultimately have "p \<noteq> q" by auto
  moreover have "resolvesTo L (tmpDir w) a p"
    using resolveFile_resolvesTo [OF a1 [unfolded ra]] resolveAll_tmpDir [OF x] by simp
  moreover have "resolvesTo L (tmpDir w) a q"
    using resolveFile_resolvesTo [OF a2 [unfolded rb]] resolveAll_tmpDir [OF x]
          resolveFile_tmpDir [OF a1] resolveAll_tmpDir [OF y] by simp
  ultimately show ?thesis using routes by blast
qed

text \<open>
  C7. Two identical arguments that are local paths collapse to one route: the result,
  and the world left behind, is that of the list without the second occurrence, and the
  route of that path is there once. Two identical arguments that are remote URLs do
  not: when they are resolved, each gets a temporary file of its own, and the route list
  has a route for each of the two files.
\<close>

theorem processFileArgs_repeated:
  "(\<not> isRemote a \<longrightarrow>
      processFileArgs L (xs @ a # ys @ a # zs) w = processFileArgs L (xs @ a # ys @ zs) w
      \<and> (\<forall>files w'. processFileArgs L (xs @ a # ys @ a # zs) w = (Inr files, w')
            \<longrightarrow> length (filter (\<lambda>f. FilePath f = a) files) = 1))
   \<and> (isRemote a \<longrightarrow>
        (\<forall>files w'. processFileArgs L (xs @ a # ys @ a # zs) w = (Inr files, w')
           \<longrightarrow> (\<exists>p q. p \<noteq> q \<and> resolvesTo L (tmpDir w) a p \<and> resolvesTo L (tmpDir w) a q
                  \<and> routeOf p \<in> set files \<and> routeOf q \<in> set files)))"
  using repeated_local_parts [of a L xs ys zs w] repeated_remote_parts [of a L xs ys zs w]
  by blast

theorem processFileArgs_repeated_witness:
  "processFileArgs plainLib ([] @ ''a.json'' # [''d/b.json''] @ ''a.json'' # []) world0
     = processFileArgs plainLib ([] @ ''a.json'' # [''d/b.json''] @ []) world0
   \<and> length (filter (\<lambda>f. FilePath f = ''a.json'')
               [\<lparr>FilePath = ''a.json'', URLPath = ''/a.json''\<rparr>,
                \<lparr>FilePath = ''d/b.json'', URLPath = ''/b.json''\<rparr>]) = 1
   \<and> (\<exists>p q. p \<noteq> q \<and> resolvesTo plainLib (tmpDir world0) ''http://h/x'' p
          \<and> resolvesTo plainLib (tmpDir world0) ''http://h/x'' q
          \<and> routeOf p \<in> set [\<lparr>FilePath = ''/tmp/mok-h.7.json'', URLPath = ''/mok-h.7.json''\<rparr>,
                 \<lparr>FilePath = ''/tmp/mok-h.12.json'', URLPath = ''/mok-h.12.json''\<rparr>]
          \<and> routeOf q \<in> set [\<lparr>FilePath = ''/tmp/mok-h.7.json'', URLPath = ''/mok-h.7.json''\<rparr>,
                 \<lparr>FilePath = ''/tmp/mok-h.12.json'', URLPath = ''/mok-h.12.json''\<rparr>])"
proof -
  have local: "\<not> isRemote ''a.json''" and remote: "isRemote ''http://h/x''"
    by (simp_all add: isRemote_def HasPrefix_def)
  have run: "processFileArgs plainLib ([] @ ''a.json'' # [''d/b.json''] @ ''a.json'' # []) world0
     = (Inr [\<lparr>FilePath = ''a.json'', URLPath = ''/a.json''\<rparr>,
             \<lparr>FilePath = ''d/b.json'', URLPath = ''/b.json''\<rparr>], world0)"
    using world0_local_args by simp
  have "fst (processFileArgs plainLib [''http://h/x'', ''http://h/x''] world0) =
      Inr [\<lparr>FilePath = ''/tmp/mok-h.7.json'', URLPath = ''/mok-h.7.json''\<rparr>,
           \<lparr>FilePath = ''/tmp/mok-h.12.json'', URLPath = ''/mok-h.12.json''\<rparr>]"
    by code_simp
  then have twice: "processFileArgs plainLib ([] @ ''http://h/x'' # [] @ ''http://h/x'' # []) world0 =
      (Inr [\<lparr>FilePath = ''/tmp/mok-h.7.json'', URLPath = ''/mok-h.7.json''\<rparr>,
            \<lparr>FilePath = ''/tmp/mok-h.12.json'', URLPath = ''/mok-h.12.json''\<rparr>],
       snd (processFileArgs plainLib [''http://h/x'', ''http://h/x''] world0))"
    by (simp add: prod_eq_iff)
  note l = processFileArgs_repeated
    [of "''a.json''" plainLib "[]" "[''d/b.json'']" "[]" world0, THEN conjunct1, THEN mp, OF local]
  note r = processFileArgs_repeated
    [of "''http://h/x''" plainLib "[]" "[]" "[]" world0, THEN conjunct2, THEN mp, OF remote,
     THEN spec, THEN spec, THEN mp, OF twice]
  from l run r show ?thesis by blast
qed

theorem repeated_remote_counterexample:
  "fst (processFileArgs plainLib [''http://h/x'', ''http://h/x''] world0)
     \<noteq> fst (processFileArgs plainLib [''http://h/x''] world0)"
proof -
  have two: "fst (processFileArgs plainLib [''http://h/x'', ''http://h/x''] world0) =
      Inr [\<lparr>FilePath = ''/tmp/mok-h.7.json'', URLPath = ''/mok-h.7.json''\<rparr>,
           \<lparr>FilePath = ''/tmp/mok-h.12.json'', URLPath = ''/mok-h.12.json''\<rparr>]"
    by code_simp
  have one: "fst (processFileArgs plainLib [''http://h/x''] world0) =
      Inr [\<lparr>FilePath = ''/tmp/mok-h.7.json'', URLPath = ''/mok-h.7.json''\<rparr>]"
    by code_simp
  show ?thesis unfolding two one by simp
qed

subsection \<open>Direct input\<close>



subsection \<open>The startup summary\<close>

lemma foldl_max:
  "0 \<le> m0 \<Longrightarrow>
   foldl (\<lambda>m file. max m (4 + int (length (URLPath file)))) m0 files
     = max m0 (int (foldr (\<lambda>f a. max (4 + length (URLPath f)) a) files 0))"
  by (induction files arbitrary: m0) (simp_all add: max.assoc)

lemma foldr_max_longest:
  "files \<noteq> [] \<Longrightarrow>
   foldr (\<lambda>f a. max (4 + length (URLPath f)) a) files 0 = 4 + longestURL files"
proof (induction files)
  case Nil
  then show ?case by simp
next
  case (Cons f files)
  show ?case
  proof (cases "files = []")
    case True
    then show ?thesis by (simp add: longestURL_def)
  next
    case False
    from Cons.IH [OF this] show ?thesis by (simp add: longestURL_def)
  qed
qed

lemma maxURLLen_longest:
  assumes "files \<noteq> []"
  shows "maxURLLen files = 4 + int (longestURL files)"
proof -
  have step: "(\<lambda>m file. let urlLen = int (length (''GET '' @ URLPath file))
                          in if urlLen > m then urlLen else m)
                = (\<lambda>m file. max m (4 + int (length (URLPath file))))"
    by (intro ext) (simp add: Let_def max_def)
  show ?thesis
    unfolding maxURLLen_def step using foldl_max [of 0 files] foldr_max_longest [OF assms]
    by simp
qed

lemma longestURL_ge: "f \<in> set files \<Longrightarrow> length (URLPath f) \<le> longestURL files"
  by (induction files) (auto simp: longestURL_def)

lemma summaryLine_aligned:
  assumes "f \<in> set files"
  shows "summaryLine (maxURLLen files) f
           = ''   '' @ URLPath f
             @ replicate (3 + (longestURL files - length (URLPath f))) (CHR '' '')
             @ ''  ('' @ FilePath f @ '')\<newline>''"
proof -
  from assms have ne: "files \<noteq> []" by auto
  have "nat (4 + int (longestURL files) - int (length ('' '' @ URLPath f)))
          = 3 + (longestURL files - length (URLPath f))"
    using longestURL_ge [OF assms] by simp
  then show ?thesis
    by (simp add: summaryLine_def maxURLLen_longest [OF ne] Let_def)
qed

lemma printSummary_table:
  "printSummary port files
     = ''  mok is listening at http://localhost:'' @ Itoa port @ ''\<newline>\<newline>''
       @ ''  available endpoints:\<newline>''
       @ concat (map (\<lambda>f. ''   '' @ URLPath f
                  @ replicate (3 + (longestURL files - length (URLPath f))) (CHR '' '')
                  @ ''  ('' @ FilePath f @ '')\<newline>'') files)"
proof -
  have eq: "map (summaryLine (maxURLLen files)) files
          = map (\<lambda>f. ''   '' @ URLPath f
                  @ replicate (3 + (longestURL files - length (URLPath f))) (CHR '' '')
                  @ ''  ('' @ FilePath f @ '')\<newline>'') files"
    by (rule map_cong [OF refl]) (rule summaryLine_aligned)
  show ?thesis unfolding printSummary_def Let_def eq by simp
qed

lemma main_stdout:
  assumes "process (main L sin fl w) = Serving m"
    and "getDirectInput sin (jsonStrFlag fl) = Inr di"
    and "processFileArgs L (argsFlag fl) w = (Inr files, w')"
  shows "stdout (main L sin fl w)
           = (if di = [] then printSummary (portFlag fl) files else directSummary (portFlag fl))"
  using assms
  by (auto simp: main_def Let_def split: if_splits sum.splits option.splits)

text \<open>
  C9. When the program serves routes and has no direct input, the summary is two header
  lines and one line for every route, in order: three spaces, the URL path, padding,
  two spaces and the source path in parentheses. No method is printed. The padding makes
  the text before the two spaces six bytes longer than the longest URL path, on every
  line, so that the source paths start in one column. With direct input the summary is
  the single line with the base URL.
\<close>

theorem startup_summary:
  assumes "process (main L sin fl w) = Serving m"
    and "getDirectInput sin (jsonStrFlag fl) = Inr di"
    and "processFileArgs L (argsFlag fl) w = (Inr files, w')"
  shows "(di = [] \<longrightarrow>
            stdout (main L sin fl w)
              = ''  mok is listening at http://localhost:'' @ Itoa (portFlag fl) @ ''\<newline>\<newline>''
                @ ''  available endpoints:\<newline>''
                @ concat (map (\<lambda>f. ''   '' @ URLPath f
                     @ replicate (3 + (longestURL files - length (URLPath f))) (CHR '' '')
                     @ ''  ('' @ FilePath f @ '')\<newline>'') files))
       \<and> (\<forall>f \<in> set files.
             length (''   '' @ URLPath f
                     @ replicate (3 + (longestURL files - length (URLPath f))) (CHR '' ''))
               = 6 + longestURL files)
       \<and> (di \<noteq> [] \<longrightarrow>
            stdout (main L sin fl w)
              = ''mok is serving direct input on http://localhost:'' @ Itoa (portFlag fl)
                @ ''/\<newline>'')"
proof -
  have "\<forall>f \<in> set files.
             length (''   '' @ URLPath f
                     @ replicate (3 + (longestURL files - length (URLPath f))) (CHR '' ''))
               = 6 + longestURL files"
  proof
    fix f assume "f \<in> set files"
    from longestURL_ge [OF this]
    show "length (''   '' @ URLPath f
                     @ replicate (3 + (longestURL files - length (URLPath f))) (CHR '' ''))
               = 6 + longestURL files"
      by simp
  qed
  with main_stdout [OF assms] show ?thesis
    by (simp add: printSummary_table directSummary_def)
qed

lemma world0_two_routes:
  "processFileArgs plainLib [''a.json'', ''d/b.json''] world0
     = (Inr [\<lparr>FilePath = ''a.json'', URLPath = ''/a.json''\<rparr>,
             \<lparr>FilePath = ''d/b.json'', URLPath = ''/b.json''\<rparr>], world0)"
  by (simp add: processFileArgs_def resolveFile_def isRemote_def HasPrefix_def world0_def
        Base_def lastElement_def stripTrailing_def isPathSeparator_def)

lemma world0_bind: "bindError world0 = None"
  by (simp add: world0_def)

lemma emptyStdin_no_input: "getDirectInput emptyStdin [] = Inr []"
  by (simp add: getDirectInput_def emptyStdin_def)

lemma world0_serving:
  "\<exists>m. process (main plainLib emptyStdin
           \<lparr>portFlag = 9172, jsonStrFlag = [], argsFlag = [''a.json'', ''d/b.json'']\<rparr> world0)
         = Serving m"
  by (simp add: main_def emptyStdin_no_input world0_two_routes world0_bind setupHandlers_def
        HandleFunc_def Split_def lastElement_def isPathSeparator_def Let_def)

lemma Itoa_9172: "Itoa 9172 = ''9172''"
  by (simp add: Itoa_def Uitoa.simps)

theorem startup_summary_witness:
  "stdout (main plainLib emptyStdin
      \<lparr>portFlag = 9172, jsonStrFlag = [], argsFlag = [''a.json'', ''d/b.json'']\<rparr> world0)
    = ''  mok is listening at http://localhost:9172\<newline>\<newline>''
      @ ''  available endpoints:\<newline>''
      @ ''   /a.json     (a.json)\<newline>''
      @ ''   /b.json     (d/b.json)\<newline>''"
proof -
  let ?fl = "\<lparr>portFlag = 9172, jsonStrFlag = [], argsFlag = [''a.json'', ''d/b.json'']\<rparr>"
  let ?files = "[\<lparr>FilePath = ''a.json'', URLPath = ''/a.json''\<rparr>,
                 \<lparr>FilePath = ''d/b.json'', URLPath = ''/b.json''\<rparr>]"
  from world0_serving obtain m where
    serving: "process (main plainLib emptyStdin ?fl world0) = Serving m" ..
  have di: "getDirectInput emptyStdin (jsonStrFlag ?fl) = Inr []"
    by (simp add: emptyStdin_no_input)
  have args: "processFileArgs plainLib (argsFlag ?fl) world0 = (Inr ?files, world0)"
    by (simp add: world0_two_routes)
  have "stdout (main plainLib emptyStdin ?fl world0)
          = ''  mok is listening at http://localhost:'' @ Itoa (portFlag ?fl) @ ''\<newline>\<newline>''
            @ ''  available endpoints:\<newline>''
            @ concat (map (\<lambda>f. ''   '' @ URLPath f
                 @ replicate (3 + (longestURL ?files - length (URLPath f))) (CHR '' '')
                 @ ''  ('' @ FilePath f @ '')\<newline>'') ?files)"
    by (rule startup_summary [OF serving di args, THEN conjunct1, rule_format, OF refl])
  also have "\<dots> = ''  mok is listening at http://localhost:9172\<newline>\<newline>''
      @ ''  available endpoints:\<newline>''
      @ ''   /a.json     (a.json)\<newline>''
      @ ''   /b.json     (d/b.json)\<newline>''"
    by (simp add: longestURL_def Itoa_9172 numeral_3_eq_3)
  finally show ?thesis .
qed

lemma world0_one_route:
  "processFileArgs plainLib [''a.json''] world0
     = (Inr [\<lparr>FilePath = ''a.json'', URLPath = ''/a.json''\<rparr>], world0)"
  by (simp add: processFileArgs_def resolveFile_def isRemote_def HasPrefix_def world0_def
        Base_def lastElement_def stripTrailing_def isPathSeparator_def)

lemma world0_serving_one:
  "\<exists>m. process (main plainLib emptyStdin
           \<lparr>portFlag = 9172, jsonStrFlag = [], argsFlag = [''a.json'']\<rparr> world0)
         = Serving m"
  by (simp add: main_def emptyStdin_no_input world0_one_route world0_bind setupHandlers_def
        HandleFunc_def Split_def lastElement_def isPathSeparator_def Let_def)

theorem startup_summary_counterexample:
  "stdout (main plainLib emptyStdin
      \<lparr>portFlag = 9172, jsonStrFlag = [], argsFlag = [''a.json'']\<rparr> world0)
    = ''  mok is listening at http://localhost:9172\<newline>\<newline>''
      @ ''  available endpoints:\<newline>''
      @ ''   /a.json     (a.json)\<newline>''
   \<and> \<not> Contains (stdout (main plainLib emptyStdin
      \<lparr>portFlag = 9172, jsonStrFlag = [], argsFlag = [''a.json'']\<rparr> world0)) ''GET''"
proof -
  let ?fl = "\<lparr>portFlag = 9172, jsonStrFlag = [], argsFlag = [''a.json'']\<rparr>"
  from world0_serving_one obtain m where
    serving: "process (main plainLib emptyStdin ?fl world0) = Serving m" ..
  have di: "getDirectInput emptyStdin (jsonStrFlag ?fl) = Inr []"
    by (simp add: emptyStdin_no_input)
  have args: "processFileArgs plainLib (argsFlag ?fl) world0
                = (Inr [\<lparr>FilePath = ''a.json'', URLPath = ''/a.json''\<rparr>], world0)"
    by (simp add: world0_one_route)
  have out: "stdout (main plainLib emptyStdin ?fl world0)
    = ''  mok is listening at http://localhost:9172\<newline>\<newline>''
      @ ''  available endpoints:\<newline>''
      @ ''   /a.json     (a.json)\<newline>''"
    unfolding main_stdout [OF serving di args]
    by (simp add: printSummary_table longestURL_def Itoa_9172 numeral_3_eq_3)
  have "\<not> Contains (''  mok is listening at http://localhost:9172\<newline>\<newline>''
      @ ''  available endpoints:\<newline>''
      @ ''   /a.json     (a.json)\<newline>'') ''GET''"
    by (simp add: HasPrefix_def)
  with out show ?thesis by simp
qed

subsection \<open>Registration of the handlers\<close>

lemma fst_fileEntry [simp]: "fst (fileEntry f) = patternOf f"
  by (simp add: fileEntry_def)

lemma map_fst_fileEntry [simp]: "map (fst \<circ> fileEntry) files = map patternOf files"
  by simp

lemma registerFiles_Cons:
  "registerFiles (f # files) m =
     (if patternOf f \<in> fst ` set m then Inl (MultipleRegistrations (patternOf f))
      else registerFiles files (m @ [fileEntry f]))"
  by (simp add: HandleFunc_def fileEntry_def patternOf_def split: prod.splits)

lemma registerFiles_Inr:
  "registerFiles files m = Inr m' \<Longrightarrow>
   m' = m @ map fileEntry files
   \<and> distinct (map patternOf files)
   \<and> (\<forall>f \<in> set files. patternOf f \<notin> fst ` set m)"
proof (induction files arbitrary: m)
  case Nil
  then show ?case by simp
next
  case (Cons f files)
  from Cons.prems have new: "patternOf f \<notin> fst ` set m"
    and rest: "registerFiles files (m @ [fileEntry f]) = Inr m'"
    by (simp_all add: registerFiles_Cons del: registerFiles.simps(2) split: if_splits)
  from Cons.IH [OF rest] new show ?case by auto
qed


lemma setupHandlers_Inr:
  assumes "setupHandlers L di files = Inr m"
  shows "m = (''/'', rootHandler L di files) # map fileEntry files"
    and "distinct (map fst m)"
proof -
  from assms have r: "registerFiles files [(''/'', rootHandler L di files)] = Inr m"
    by (simp add: setupHandlers_def HandleFunc_def)
  from registerFiles_Inr [OF r]
  show "m = (''/'', rootHandler L di files) # map fileEntry files"
    and "distinct (map fst m)"
    by auto
qed


lemma handle_root:
  assumes "setupHandlers L di files = Inr m" and "reqPath r = ''/''"
  shows "handle m d r = rootHandler L di files d r"
  using assms(2) by (simp add: setupHandlers_Inr(1) [OF assms(1)] handle_def dispatch_def)




lemma main_serving:
  assumes "process (main L sin fl w) = Serving m"
    and "getDirectInput sin (jsonStrFlag fl) = Inr di"
    and "processFileArgs L (argsFlag fl) w = (Inr files, w')"
  shows "setupHandlers L di files = Inr m"
    and "di = [] \<Longrightarrow> files \<noteq> []"
proof -
  from assms show "setupHandlers L di files = Inr m"
    by (auto simp: main_def Let_def split: if_splits sum.splits option.splits)
  assume "di = []"
  with assms have "argsFlag fl \<noteq> []"
    by (auto simp: main_def Let_def split: if_splits)
  moreover from processFileArgs_paths [OF assms(3)] obtain paths
    where "resolveAll L (argsFlag fl) w = (Inr paths, w')"
      and "set (map FilePath files) = set paths" by blast
  ultimately show "files \<noteq> []"
    using resolveAll_length [of L "argsFlag fl" w paths w'] by auto
qed




lemma serving_respond:
  "process p = Serving m \<Longrightarrow> respond p d r = Some (handle m d r)"
  by (simp add: respond_def)





subsection \<open>The root handler\<close>



subsection \<open>Direct input at the root\<close>



lemma direct_only_serving:
  assumes "s \<noteq> []" and "bindError w = None"
  shows "main L emptyStdin \<lparr>portFlag = p, jsonStrFlag = s, argsFlag = []\<rparr> w
           = \<lparr>process = Serving [(''/'', rootHandler L s [])],
              stdout = directSummary p, finalWorld = w\<rparr>"
  using assms
  by (simp add: main_def getDirectInput_def emptyStdin_def processFileArgs_def
        setupHandlers_def HandleFunc_def)

lemma direct_only_input:
  "s \<noteq> [] \<Longrightarrow> getDirectInput emptyStdin s = Inr s"
  by (simp add: getDirectInput_def emptyStdin_def)

lemma no_args: "processFileArgs L [] w = (Inr [], w)"
  by (simp add: processFileArgs_def)




text \<open>
  C10. When the direct input is JSON but neither an object nor \<^verbatim>\<open>null\<close> (an array, a
  string, a number, \<^verbatim>\<open>true\<close> or \<^verbatim>\<open>false\<close>), a request for \<^verbatim>\<open>/\<close> gets status 500 and
  the text \<^verbatim>\<open>Invalid JSON: \<close> followed by the type error of the decoder. The document
  \<^verbatim>\<open>null\<close> is decoded into the map without an error, and the answer is status 200 with
  the body \<^verbatim>\<open>null\<close>.
\<close>

theorem non_object_direct_input:
  assumes "process (main L sin fl w) = Serving m"
    and "getDirectInput sin (jsonStrFlag fl) = Inr di"
    and "processFileArgs L (argsFlag fl) w = (Inr files, w')"
    and "di \<noteq> []" and "jsonKind di = Some k" and "k \<noteq> KObject"
  shows "(k \<noteq> KNull \<longrightarrow>
            (\<forall>d r. reqPath r = ''/'' \<longrightarrow>
               handle m d r =
                 \<lparr>respStatus = 500,
                  respBody = ''Invalid JSON: '' @ ''json: cannot unmarshal '' @ kindName k
                    @ '' into Go value of type map[string]interface {}'' @ ''\<newline>''\<rparr>))
       \<and> (k = KNull \<longrightarrow>
            (\<forall>d r. reqPath r = ''/'' \<longrightarrow>
               handle m d r = \<lparr>respStatus = 200, respBody = ''null\<newline>''\<rparr>))"
proof -
  note s = main_serving(1) [OF assms(1,2,3)]
  from assms(4,5,6) show ?thesis
    by (cases k)
       (simp_all add: handle_root [OF s] rootHandler_def serveDirectInput_def Unmarshal_def
          EncodeMap_def httpError_def)
qed

lemma array_is_json: "jsonKind ''[1, 2]'' = Some KArray"
  by code_simp

lemma null_is_json: "jsonKind ''null'' = Some KNull"
  by code_simp

theorem non_object_direct_input_witness:
  "respond (main plainLib emptyStdin
      \<lparr>portFlag = 9172, jsonStrFlag = ''[1, 2]'', argsFlag = []\<rparr> world0)
     (fsys world0) \<lparr>reqPath = ''/'', reqAccept = []\<rparr>
   = Some \<lparr>respStatus = 500,
           respBody = ''Invalid JSON: json: cannot unmarshal array''
             @ '' into Go value of type map[string]interface {}\<newline>''\<rparr>"
proof -
  let ?fl = "\<lparr>portFlag = 9172, jsonStrFlag = ''[1, 2]'', argsFlag = []\<rparr>"
  let ?r = "\<lparr>reqPath = ''/'', reqAccept = []\<rparr>"
  have serving: "process (main plainLib emptyStdin ?fl world0)
                   = Serving [(''/'', rootHandler plainLib ''[1, 2]'' [])]"
    by (simp add: direct_only_serving world0_bind)
  have di: "getDirectInput emptyStdin (jsonStrFlag ?fl) = Inr ''[1, 2]''"
    by (simp add: direct_only_input)
  have args: "processFileArgs plainLib (argsFlag ?fl) world0 = (Inr [], world0)"
    by (simp add: no_args)
  have ne: "''[1, 2]'' \<noteq> []" by simp
  have k: "KArray \<noteq> KObject" "KArray \<noteq> KNull" by simp_all
  have r: "reqPath ?r = ''/''" by simp
  from non_object_direct_input [OF serving di args ne array_is_json k(1),
         THEN conjunct1, THEN mp, OF k(2),
         THEN spec [where x = "fsys world0"], THEN spec [where x = ?r], THEN mp, OF r]
  have "handle [(''/'', rootHandler plainLib ''[1, 2]'' [])] (fsys world0) ?r
          = \<lparr>respStatus = 500,
           respBody = ''Invalid JSON: json: cannot unmarshal array''
             @ '' into Go value of type map[string]interface {}\<newline>''\<rparr>"
    by (simp add: kindName_def)
  with serving_respond [OF serving] show ?thesis by simp
qed

theorem null_direct_input_counterexample:
  "jsonKind ''null'' = Some KNull
   \<and> respond (main plainLib emptyStdin
        \<lparr>portFlag = 9172, jsonStrFlag = ''null'', argsFlag = []\<rparr> world0)
       (fsys world0) \<lparr>reqPath = ''/'', reqAccept = []\<rparr>
     = Some \<lparr>respStatus = 200, respBody = ''null\<newline>''\<rparr>"
proof -
  have serving: "process (main plainLib emptyStdin
        \<lparr>portFlag = 9172, jsonStrFlag = ''null'', argsFlag = []\<rparr> world0)
                   = Serving [(''/'', rootHandler plainLib ''null'' [])]"
    by (simp add: direct_only_serving world0_bind)
  have "handle [(''/'', rootHandler plainLib ''null'' [])] (fsys world0)
          \<lparr>reqPath = ''/'', reqAccept = []\<rparr>
        = \<lparr>respStatus = 200, respBody = ''null\<newline>''\<rparr>"
    by (simp add: handle_def dispatch_def rootHandler_def serveDirectInput_def Unmarshal_def
          EncodeMap_def null_is_json)
  with serving_respond [OF serving] null_is_json show ?thesis by simp
qed

end
